theory Spec2Isabelle
  imports Complex_Main
begin

section \<open>JavaScript strings\<close>

text \<open>
  A JavaScript string is a sequence of UTF-16 code units; a code unit is modelled as a
  natural number. \<open>str\<close> embeds an ASCII literal.
\<close>

type_synonym jsstring = "nat list"

definition str :: "string \<Rightarrow> jsstring" where
  "str s = map of_char s"

text \<open>
  The class \<open>\s\<close> of a JavaScript regular expression, which is also the set of code units
  that \<open>String.prototype.trim\<close> strips: the WhiteSpace and LineTerminator productions of
  ECMAScript (TAB, LF, VT, FF, CR, SP, NBSP, U+1680, U+2000..U+200A, LS, PS, U+202F, U+205F,
  U+3000, BOM).
\<close>

definition is_js_space :: "nat \<Rightarrow> bool" where
  "is_js_space c \<longleftrightarrow>
     (9 \<le> c \<and> c \<le> 13) \<or> c = 32 \<or> c = 160 \<or> c = 5760 \<or> (8192 \<le> c \<and> c \<le> 8202) \<or>
     c = 8232 \<or> c = 8233 \<or> c = 8239 \<or> c = 8287 \<or> c = 12288 \<or> c = 65279"

text \<open>\<open>value.trim()\<close>\<close>

definition trim :: "jsstring \<Rightarrow> jsstring" where
  "trim v = rev (dropWhile is_js_space (rev (dropWhile is_js_space v)))"

text \<open>\<open>value.replace(/\s+/g, " ")\<close>: every maximal run of white space becomes one space.\<close>

function replace_ws_runs :: "jsstring \<Rightarrow> jsstring" where
  "replace_ws_runs [] = []"
| "replace_ws_runs (c # cs) =
     (if is_js_space c then 32 # replace_ws_runs (dropWhile is_js_space cs)
      else c # replace_ws_runs cs)"
  by pat_completeness auto
termination
  by (relation "measure length") (auto simp: le_imp_less_Suc length_dropWhile_le)

section \<open>Audio playback scheduler (use-agent-audio-playback.ts)\<close>

record QueuedAudioChunk =
  data :: jsstring
  mimeType :: jsstring

text \<open>
  The Web Audio \<open>AudioBuffer\<close> a chunk decodes to. Its \<open>duration\<close> attribute is the number
  of sample frames divided by the sample rate.
\<close>

record AudioBuffer =
  buf_length :: nat
  buf_sampleRate :: nat

definition duration :: "AudioBuffer \<Rightarrow> real" where
  "duration b = real (buf_length b) / real (buf_sampleRate b)"

text \<open>
  The state of one \<open>useAgentAudioPlayback\<close> instance: its four refs, and
  \<^item> \<open>awaiting\<close>: the chunk held by the drain loop while it is suspended at its
    \<open>await\<close>s (\<open>None\<close> when no drain pass is suspended);
  \<^item> \<open>started\<close>: the calls \<open>source.start(startAt)\<close> made so far, in call order, each with
    the duration of the buffer it starts;
  \<^item> \<open>contextsCreated\<close>, \<open>closedContexts\<close>: audio contexts are numbered in creation order;
    the closed ones are logged.
\<close>

record playback =
  contextRef :: "nat option"
  queueRef :: "QueuedAudioChunk list"
  processingRef :: bool
  nextPlayTimeRef :: real
  awaiting :: "QueuedAudioChunk option"
  started :: "(real \<times> real) list"
  contextsCreated :: nat
  closedContexts :: "nat list"

definition initial_playback :: playback where
  "initial_playback =
     \<lparr>contextRef = None, queueRef = [], processingRef = False, nextPlayTimeRef = 0,
      awaiting = None, started = [], contextsCreated = 0, closedContexts = []\<rparr>"

definition stop :: "playback \<Rightarrow> playback" where
  "stop s =
     (let s1 = s\<lparr>queueRef := [], nextPlayTimeRef := 0\<rparr>
      in case contextRef s1 of
           None \<Rightarrow> s1
         | Some context \<Rightarrow>
             s1\<lparr>contextRef := None, closedContexts := closedContexts s1 @ [context]\<rparr>)"

text \<open>
  \<open>ensureContext\<close> up to its \<open>await\<close>: the context is created when there is none. Whether the
  awaited \<open>resume()\<close> succeeds is part of how the suspension is settled, below.
\<close>

definition ensureContext :: "playback \<Rightarrow> playback" where
  "ensureContext s =
     (case contextRef s of
        None \<Rightarrow> s\<lparr>contextRef := Some (contextsCreated s),
                  contextsCreated := Suc (contextsCreated s)\<rparr>
      | Some context \<Rightarrow> s)"

text \<open>
  \<open>scheduleBuffer(context, buffer)\<close>; \<open>now\<close> is \<open>context.currentTime\<close> as read by the call.
\<close>

definition scheduleBuffer :: "real \<Rightarrow> AudioBuffer \<Rightarrow> playback \<Rightarrow> playback" where
  "scheduleBuffer now buffer s =
     (let startAt = max (now + 1 / 100) (nextPlayTimeRef s)
      in s\<lparr>started := started s @ [(startAt, duration buffer)],
           nextPlayTimeRef := startAt + duration buffer\<rparr>)"

text \<open>
  \<open>processQueue\<close> is an asynchronous loop. It runs without interruption from one \<open>await\<close> to
  the next, so it is cut there:
  \<^item> \<open>drain_loop\<close> is the loop head: on an empty queue the loop ends and \<open>finally\<close> clears
    the flag; otherwise the head chunk is shifted, \<open>ensureContext\<close> is called and the loop
    suspends holding the chunk (a shifted element of this queue is always an object, so the
    \<open>!chunk\<close> test never fires);
  \<^item> \<open>processQueue\<close> is the call itself: the single-flight guard, the flag, the loop head;
  \<^item> \<open>settled\<close> resumes the suspended loop with what \<open>ensureContext\<close> and
    \<open>createBufferFromChunk\<close> delivered: a decoded buffer is scheduled and the loop goes
    round; a rejection lands in \<open>catch\<close>, which calls \<open>stop()\<close>, and \<open>finally\<close>.
  A settlement is \<open>Decoded now buffer\<close> (the chunk decoded to \<open>buffer\<close>, and
  \<open>context.currentTime\<close> is \<open>now\<close> when it is scheduled), \<open>DecodeFailed\<close>
  (\<open>createBufferFromChunk\<close> threw or rejected) or \<open>ContextFailed\<close> (the \<open>resume()\<close> awaited
  by \<open>ensureContext\<close> rejected). The constructor of the audio context is taken to succeed.
\<close>

datatype settlement =
    Decoded real AudioBuffer
  | DecodeFailed
  | ContextFailed

definition drain_loop :: "playback \<Rightarrow> playback" where
  "drain_loop s =
     (case queueRef s of
        [] \<Rightarrow> s\<lparr>processingRef := False\<rparr>
      | chunk # rest \<Rightarrow> ensureContext (s\<lparr>queueRef := rest, awaiting := Some chunk\<rparr>))"

definition processQueue :: "playback \<Rightarrow> playback" where
  "processQueue s =
     (if processingRef s then s else drain_loop (s\<lparr>processingRef := True\<rparr>))"

definition settled :: "settlement \<Rightarrow> playback \<Rightarrow> playback" where
  "settled outcome s =
     (case awaiting s of
        None \<Rightarrow> s
      | Some chunk \<Rightarrow>
          (case outcome of
             Decoded now buffer \<Rightarrow> drain_loop (scheduleBuffer now buffer (s\<lparr>awaiting := None\<rparr>))
           | DecodeFailed \<Rightarrow> (stop (s\<lparr>awaiting := None\<rparr>))\<lparr>processingRef := False\<rparr>
           | ContextFailed \<Rightarrow> (stop (s\<lparr>awaiting := None\<rparr>))\<lparr>processingRef := False\<rparr>))"

definition enqueueChunk :: "jsstring \<Rightarrow> jsstring \<Rightarrow> playback \<Rightarrow> playback" where
  "enqueueChunk d m s =
     (if d = [] \<or> m = [] then s
      else processQueue (s\<lparr>queueRef := queueRef s @ [\<lparr>data = d, mimeType = m\<rparr>]\<rparr>))"

text \<open>
  What happens to a scheduler: calls of its two operations, and settlements of its suspended
  drain loop. A run is a sequence of these.
\<close>

datatype playback_event =
    EnqueueChunk jsstring jsstring
  | Stop
  | Settle settlement

fun playback_step :: "playback_event \<Rightarrow> playback \<Rightarrow> playback" where
  "playback_step (EnqueueChunk d m) s = enqueueChunk d m s"
| "playback_step Stop s = stop s"
| "playback_step (Settle outcome) s = settled outcome s"

fun playback_run :: "playback_event list \<Rightarrow> playback \<Rightarrow> playback" where
  "playback_run [] s = s"
| "playback_run (e # es) s = playback_run es (playback_step e s)"

text \<open>The events that can lead to a call of \<open>stop()\<close>.\<close>

fun invokes_stop :: "playback_event \<Rightarrow> bool" where
  "invokes_stop (EnqueueChunk d m) = False"
| "invokes_stop Stop = True"
| "invokes_stop (Settle (Decoded now buffer)) = False"
| "invokes_stop (Settle DecodeFailed) = True"
| "invokes_stop (Settle ContextFailed) = True"

text \<open>No overlap in a log of starts: every buffer starts at or after the end of the one before.\<close>

fun back_to_back :: "(real \<times> real) list \<Rightarrow> bool" where
  "back_to_back [] = True"
| "back_to_back [x] = True"
| "back_to_back (x # y # zs) = (fst x + snd x \<le> fst y \<and> back_to_back (y # zs))"

section \<open>Scene-change gate (use-camera-stream.ts)\<close>

text \<open>
  What one tick of the frame timer reads from the page: the size of the video, the scene
  signature computed by \<open>getSceneSignature()\<close> (a luma value per cell of the 32 by 18
  grid; \<open>None\<close> for its \<open>null\<close>), and the string \<open>frameCanvas.toDataURL('image/jpeg', 0.72)\<close>
  would return for the frame.
\<close>

record camera_frame =
  videoWidth :: int
  videoHeight :: int
  sceneSignature :: "real list option"
  dataUrl :: jsstring

text \<open>
  The state of the gate is the closure variable \<open>lastSceneSample\<close>. Two logs record what
  the ticks did: the arguments of each call of \<open>onFrame\<close>, and the signature of each frame
  handed to \<open>onFrame\<close>.
\<close>

record scene_gate =
  lastSceneSample :: "real list option"
  onFrame_calls :: "(jsstring \<times> jsstring) list"
  emitted_samples :: "real list list"

definition initial_gate :: scene_gate where
  "initial_gate = \<lparr>lastSceneSample = None, onFrame_calls = [], emitted_samples = []\<rparr>"

text \<open>
  The loop of \<open>hasMeaningfulSceneChange\<close> that adds up
  \<open>Math.abs(nextSample[index] - lastSceneSample[index])\<close>. Reading \<open>lastSceneSample\<close> past
  its end gives \<open>undefined\<close> and the total becomes \<open>NaN\<close>, written \<open>None\<close>.
\<close>

fun totalDiff :: "real list \<Rightarrow> real list \<Rightarrow> real option" where
  "totalDiff [] ys = Some 0"
| "totalDiff (x # xs) [] = None"
| "totalDiff (x # xs) (y # ys) = map_option (\<lambda>t. \<bar>x - y\<bar> + t) (totalDiff xs ys)"

text \<open>\<open>totalDiff / nextSample.length\<close>; for an empty sample this is \<open>0 / 0\<close>, \<open>NaN\<close>.\<close>

definition averageDiff :: "real list \<Rightarrow> real list \<Rightarrow> real option" where
  "averageDiff nextSample lastSample =
     (if length nextSample = 0 then None
      else map_option (\<lambda>t. t / real (length nextSample)) (totalDiff nextSample lastSample))"

text \<open>A comparison with \<open>NaN\<close> is false.\<close>

definition hasMeaningfulSceneChange :: "real \<Rightarrow> real list option \<Rightarrow> real list \<Rightarrow> bool" where
  "hasMeaningfulSceneChange sceneChangeThreshold lastSample nextSample =
     (case lastSample of
        None \<Rightarrow> True
      | Some sample \<Rightarrow>
          (case averageDiff nextSample sample of
             None \<Rightarrow> False
           | Some a \<Rightarrow> a \<ge> sceneChangeThreshold))"

text \<open>\<open>String.prototype.indexOf\<close> for a single code unit: the first position, or \<open>-1\<close>.\<close>

fun indexOf :: "jsstring \<Rightarrow> nat \<Rightarrow> int" where
  "indexOf [] c = - 1"
| "indexOf (x # xs) c =
     (if x = c then 0 else (let i = indexOf xs c in if i = - 1 then - 1 else i + 1))"

text \<open>
  The callback of \<open>window.setInterval\<close>. Code unit 44 is the comma. Drawing the frame onto
  \<open>frameCanvas\<close> has no effect on the gate and is left out.
\<close>

definition interval_tick :: "real \<Rightarrow> camera_frame \<Rightarrow> scene_gate \<Rightarrow> scene_gate" where
  "interval_tick sceneChangeThreshold f g =
     (if videoWidth f \<le> 0 \<or> videoHeight f \<le> 0 then g
      else case sceneSignature f of
        None \<Rightarrow> g
      | Some sceneSample \<Rightarrow>
          if \<not> hasMeaningfulSceneChange sceneChangeThreshold (lastSceneSample g) sceneSample
          then g
          else
            (let g1 = g\<lparr>lastSceneSample := Some sceneSample\<rparr>;
                 commaIndex = indexOf (dataUrl f) 44
             in if commaIndex = - 1 then g1
                else g1\<lparr>onFrame_calls := onFrame_calls g1 @
                            [(drop (nat (commaIndex + 1)) (dataUrl f), str ''image/jpeg'')],
                        emitted_samples := emitted_samples g1 @ [sceneSample]\<rparr>))"

fun gate_run :: "real \<Rightarrow> camera_frame list \<Rightarrow> scene_gate \<Rightarrow> scene_gate" where
  "gate_run thr [] g = g"
| "gate_run thr (f # fs) g = gate_run thr fs (interval_tick thr f g)"

text \<open>
  The default of the option \<open>sceneChangeThreshold\<close> of \<open>useCameraStream\<close>. It is the
  threshold of every gate of the program: \<open>App\<close> calls the hook without this option.
\<close>

definition default_sceneChangeThreshold :: real where
  "default_sceneChangeThreshold = 12"

text \<open>The mean absolute difference, cell by cell, of two signatures.\<close>

definition mean_abs_diff :: "real list \<Rightarrow> real list \<Rightarrow> real" where
  "mean_abs_diff a b = (\<Sum>i<length a. \<bar>a ! i - b ! i\<bar>) / real (length a)"

text \<open>
  A tick has a valid frame when none of its guards other than the scene-change test stops
  it: the video has a size, there is a signature, and the data URL has the comma that
  separates its header from the image. Every string \<open>toDataURL\<close> returns has that comma:
  it is \<open>data:,\<close> for a canvas without pixels and \<open>data:\<close>, the type, \<open>;base64,\<close> and the
  image otherwise.
\<close>

definition valid_frame :: "camera_frame \<Rightarrow> bool" where
  "valid_frame f \<longleftrightarrow>
     0 < videoWidth f \<and> 0 < videoHeight f \<and> sceneSignature f \<noteq> None \<and> 44 \<in> set (dataUrl f)"

text \<open>The tick reaches the scene-change test and passes it.\<close>

definition passes_gate :: "real \<Rightarrow> camera_frame \<Rightarrow> scene_gate \<Rightarrow> bool" where
  "passes_gate thr f g \<longleftrightarrow>
     0 < videoWidth f \<and> 0 < videoHeight f \<and>
     (case sceneSignature f of
        None \<Rightarrow> False
      | Some sceneSample \<Rightarrow> hasMeaningfulSceneChange thr (lastSceneSample g) sceneSample)"

text \<open>The retained signature is that of the last frame handed to \<open>onFrame\<close>, if any.\<close>

definition retains_last_emitted :: "scene_gate \<Rightarrow> bool" where
  "retains_last_emitted g \<longleftrightarrow>
     lastSceneSample g =
       (if emitted_samples g = [] then None else Some (last (emitted_samples g)))"

section \<open>Wire protocol (socket-types.ts)\<close>

text \<open>An optional field is an \<open>option\<close>: \<open>None\<close> when the field is absent.\<close>

datatype ClientSocketMessage =
    SessionConnect "jsstring option"
  | SessionDisconnect
  | TextTurn jsstring "bool option"
  | AudioChunk jsstring jsstring
  | AudioEnd
  | VideoFrame jsstring jsstring
  | ActivityStart
  | ActivityEnd
  | Ping

datatype ServerSocketMessage =
    ServerReady jsstring
  | SessionConnected "jsstring option"
  | SessionClosed "jsstring option"
  | UserTranscript jsstring bool
  | AgentTextDelta jsstring
  | AgentAudioChunk jsstring jsstring
  | AgentTurnComplete
  | LiveInterrupted
  | LiveWaitingInput bool
  | LiveError jsstring
  | Pong

section \<open>Session bridge (live-session-bridge.ts)\<close>

text \<open>A thrown value: an \<open>Error\<close> with its message, or anything else.\<close>

datatype thrown = ErrorObject jsstring | OtherValue

text \<open>
  The calls the bridge makes on the external SDK: \<open>ai.live.connect\<close> (with the model and
  the system instruction of its config) and the methods of a session, which is named by a
  number.
\<close>

datatype session_call =
    LiveConnect jsstring "jsstring option"
  | SessionClose nat
  | SendClientContent nat jsstring bool
  | SendRealtimeAudio nat jsstring jsstring
  | SendAudioStreamEnd nat
  | SendRealtimeVideo nat jsstring jsstring
  | SendActivityStart nat
  | SendActivityEnd nat

text \<open>
  How the external session behaves during one call of \<open>handleClientMessage\<close>:
  \<^item> \<open>close_throws\<close>: \<open>session.close()\<close> returns (\<open>None\<close>) or throws;
  \<^item> \<open>connect_result\<close>: the awaited \<open>ai.live.connect\<close> throws or rejects (\<open>Inl\<close>), or
    resolves to a new session;
  \<^item> \<open>send_throws\<close>: \<open>sendClientContent\<close> or \<open>sendRealtimeInput\<close> returns or throws.
  The two send methods return \<open>void\<close> and are not awaited; a failure of theirs that shows
  only later reaches the bridge through the \<open>onerror\<close> callback, below.
\<close>

record session_behaviour =
  close_throws :: "thrown option"
  connect_result :: "thrown + nat"
  send_throws :: "thrown option"

text \<open>
  A \<open>LiveSessionBridge\<close>, with the messages passed to its \<open>send\<close> option so far (\<open>sent\<close>) and
  the calls it made on the SDK (\<open>calls\<close>). \<open>send\<close> is \<open>sendWsMessage\<close> of server.ts: it
  writes to the socket when the socket is open and returns; it does not throw.
\<close>

record bridge =
  apiKey :: jsstring
  model :: jsstring
  session :: "nat option"
  sent :: "ServerSocketMessage list"
  calls :: "session_call list"

definition send :: "ServerSocketMessage \<Rightarrow> bridge \<Rightarrow> bridge" where
  "send message b = b\<lparr>sent := sent b @ [message]\<rparr>"

definition external_call :: "session_call \<Rightarrow> bridge \<Rightarrow> bridge" where
  "external_call c b = b\<lparr>calls := calls b @ [c]\<rparr>"

text \<open>
  A method of the bridge returns the exception it raises, if any, and the bridge as the
  method left it. \<open>handleClientMessage\<close> runs to completion here: what other handlers and
  callbacks do while \<open>connect\<close> is awaited is not part of its result.
\<close>

definition disconnect ::
  "session_behaviour \<Rightarrow> jsstring option \<Rightarrow> bridge \<Rightarrow> thrown option \<times> bridge" where
  "disconnect env reason b =
     (case session b of
        None \<Rightarrow> (None, b)
      | Some h \<Rightarrow>
          (let b1 = external_call (SessionClose h) b
           in case close_throws env of
                Some e \<Rightarrow> (Some e, b1)
              | None \<Rightarrow> (None, send (SessionClosed reason) (b1\<lparr>session := None\<rparr>))))"

definition connect ::
  "session_behaviour \<Rightarrow> jsstring option \<Rightarrow> bridge \<Rightarrow> thrown option \<times> bridge" where
  "connect env systemInstruction b =
     (if apiKey b = [] then
        (None, send (LiveError (str ''GEMINI_API_KEY is missing in server environment.'')) b)
      else
        (case (if session b \<noteq> None
               then disconnect env (Some (str ''Reconnecting session.'')) b
               else (None, b)) of
           (Some e, b1) \<Rightarrow> (Some e, b1)
         | (None, b1) \<Rightarrow>
             (let instruction =
                    (case systemInstruction of
                       None \<Rightarrow> None
                     | Some t \<Rightarrow> if t \<noteq> [] \<and> length (trim t) > 0 then Some t else None);
                  b2 = external_call (LiveConnect (model b1) instruction) b1
              in case connect_result env of
                   Inl e \<Rightarrow> (Some e, b2)
                 | Inr h \<Rightarrow> (None, b2\<lparr>session := Some h\<rparr>))))"

text \<open>The session call a message is translated to, for the open session \<open>h\<close>.\<close>

fun session_request :: "nat \<Rightarrow> ClientSocketMessage \<Rightarrow> session_call option" where
  "session_request h (TextTurn t turnComplete) =
     Some (SendClientContent h t (case turnComplete of None \<Rightarrow> True | Some c \<Rightarrow> c))"
| "session_request h (AudioChunk d m) = Some (SendRealtimeAudio h d m)"
| "session_request h AudioEnd = Some (SendAudioStreamEnd h)"
| "session_request h (VideoFrame d m) = Some (SendRealtimeVideo h d m)"
| "session_request h ActivityStart = Some (SendActivityStart h)"
| "session_request h ActivityEnd = Some (SendActivityEnd h)"
| "session_request h message = None"

text \<open>The body of the \<open>try\<close> block of \<open>handleClientMessage\<close>.\<close>

fun dispatch ::
  "session_behaviour \<Rightarrow> ClientSocketMessage \<Rightarrow> bridge \<Rightarrow> thrown option \<times> bridge" where
  "dispatch env (SessionConnect systemInstruction) b = connect env systemInstruction b"
| "dispatch env SessionDisconnect b =
     disconnect env (Some (str ''Disconnected by client request.'')) b"
| "dispatch env Ping b = (None, send Pong b)"
| "dispatch env message b =
     (case session b of
        None \<Rightarrow>
          (None, send (LiveError (str ''No active Live session. Click connect first.'')) b)
      | Some h \<Rightarrow>
          (case session_request h message of
             None \<Rightarrow> (None, b)
           | Some c \<Rightarrow> (send_throws env, external_call c b)))"

text \<open>\<open>error instanceof Error ? error.message : 'Unhandled Live bridge error.'\<close>\<close>

definition error_message :: "thrown \<Rightarrow> jsstring" where
  "error_message e =
     (case e of ErrorObject m \<Rightarrow> m | OtherValue \<Rightarrow> str ''Unhandled Live bridge error.'')"

definition handleClientMessage ::
  "session_behaviour \<Rightarrow> ClientSocketMessage \<Rightarrow> bridge \<Rightarrow> thrown option \<times> bridge" where
  "handleClientMessage env message b =
     (case dispatch env message b of
        (None, b1) \<Rightarrow> (None, b1)
      | (Some e, b1) \<Rightarrow> (None, send (LiveError (error_message e)) b1))"

text \<open>
  The \<open>onerror\<close> and \<open>onclose\<close> callbacks registered with the session; the argument is the
  \<open>message\<close>, respectively the \<open>reason\<close>, of the event.
\<close>

definition onerror :: "jsstring option \<Rightarrow> bridge \<Rightarrow> bridge" where
  "onerror event_message b =
     send (LiveError
             (case event_message of
                None \<Rightarrow> str ''Gemini Live session error.''
              | Some m \<Rightarrow> if m = [] then str ''Gemini Live session error.'' else m)) b"

definition onclose :: "jsstring option \<Rightarrow> bridge \<Rightarrow> bridge" where
  "onclose event_reason b =
     send (SessionClosed
             (Some (case event_reason of
                      None \<Rightarrow> str ''Live session closed.''
                    | Some r \<Rightarrow> if r = [] then str ''Live session closed.'' else r)))
       (b\<lparr>session := None\<rparr>)"

fun is_live_error :: "ServerSocketMessage \<Rightarrow> bool" where
  "is_live_error (LiveError m) = True"
| "is_live_error other = False"

text \<open>The messages one call of \<open>handleClientMessage\<close> passes to \<open>send\<close>.\<close>

definition emitted ::
  "session_behaviour \<Rightarrow> ClientSocketMessage \<Rightarrow> bridge \<Rightarrow> ServerSocketMessage list" where
  "emitted env message b =
     drop (length (sent b)) (sent (snd (handleClientMessage env message b)))"

section \<open>Transcript aggregator and auto-observe heuristic (App.tsx)\<close>

datatype transcript_role = User | Agent | Event

record TranscriptEntry =
  entry_id :: jsstring
  role :: transcript_role
  entry_text :: jsstring

definition normalizeTranscriptText :: "jsstring \<Rightarrow> jsstring" where
  "normalizeTranscriptText v = trim (replace_ws_runs v)"

text \<open>\<open>xs.slice(-n)\<close>: the last \<open>n\<close> elements, all of them when there are fewer.\<close>

definition slice_last :: "nat \<Rightarrow> 'a list \<Rightarrow> 'a list" where
  "slice_last n xs = drop (length xs - n) xs"

text \<open>
  \<open>appendEntry\<close>, as the function from the log before to the log after that it passes to
  \<open>setEntries\<close>; \<open>newId\<close> is what \<open>createId()\<close> returns.
\<close>

definition appendEntry ::
  "jsstring \<Rightarrow> transcript_role \<Rightarrow> jsstring \<Rightarrow> TranscriptEntry list \<Rightarrow> TranscriptEntry list"
  where
  "appendEntry newId r t previous =
     (let normalizedNextText = normalizeTranscriptText t
      in if normalizedNextText = [] then previous
         else if previous \<noteq> [] \<and> role (last previous) = r \<and>
                 normalizeTranscriptText (entry_text (last previous)) = normalizedNextText
           then previous
         else if r = Agent \<and>
                 list_ex (\<lambda>item. normalizeTranscriptText (entry_text item) = normalizedNextText)
                   (filter (\<lambda>item. role item = Agent) (slice_last 4 previous))
           then previous
         else previous @ [\<lparr>entry_id = newId, role = r, entry_text = normalizedNextText\<rparr>])"

text \<open>Every entry of a log has a text that is not blank.\<close>

definition nonblank_log :: "TranscriptEntry list \<Rightarrow> bool" where
  "nonblank_log es = list_all (\<lambda>e. normalizeTranscriptText (entry_text e) \<noteq> []) es"

text \<open>
  The specification's words for the second rule of deduplication: the text matches one of
  the last four agent entries of the log.
\<close>

definition last_four_agent_entries :: "TranscriptEntry list \<Rightarrow> TranscriptEntry list" where
  "last_four_agent_entries es = slice_last 4 (filter (\<lambda>item. role item = Agent) es)"

definition matches_last_four_agent_entries :: "jsstring \<Rightarrow> TranscriptEntry list \<Rightarrow> bool" where
  "matches_last_four_agent_entries t es =
     list_ex (\<lambda>item. normalizeTranscriptText (entry_text item) = normalizeTranscriptText t)
       (last_four_agent_entries es)"

datatype vision_mode = Manual | Auto

definition manualVisionPrompt :: jsstring where
  "manualVisionPrompt =
     str ''Analyze the latest camera frame now. Give concise feedback about what you see and one actionable suggestion.''"

definition autoVisionPrompt :: jsstring where
  "autoVisionPrompt =
     str ''You are in auto-observe mode. Give one concise spoken update about the latest scene change, one practical next step, and ask one short clarifying question only if context is unclear.''"

definition userSilenceThresholdMs :: int where
  "userSilenceThresholdMs = 8000"

definition autoFeedbackCooldownMs :: int where
  "autoFeedbackCooldownMs = 18000"

definition autoFeedbackFrameFreshnessMs :: int where
  "autoFeedbackFrameFreshnessMs = 8000"

text \<open>
  The state of the \<open>App\<close> component, as far as the transcript and the auto-observe
  heuristic go: its \<open>useState\<close> values and refs, and
  \<^item> \<open>liveInputEnabled\<close>: \<open>connectionState === "connected"\<close>, where \<open>connectionState\<close>
    belongs to \<open>useLiveConnection\<close>;
  \<^item> \<open>player\<close>: the \<open>useAgentAudioPlayback\<close> instance;
  \<^item> \<open>textTurns\<close>, \<open>videoFrames\<close>: the calls of \<open>sendTextTurn\<close> and \<open>sendVideoFrame\<close>
    made so far;
  \<^item> \<open>autoObserveTimer\<close>: the interval timer the auto-observe effect has installed, if
    one is armed, with the values of \<open>liveInputEnabled\<close> and \<open>cameraEnabled\<close> that the
    \<open>requestVisionFeedback\<close> in its callback has captured;
  \<^item> \<open>autoFeedbackSent\<close>: the times at which an auto-mode prompt was handed to
    \<open>sendTextTurn\<close>, in order.
  Times are \<open>Date.now()\<close>, in milliseconds.
\<close>

record app =
  micEnabled :: bool
  cameraEnabled :: bool
  speakResponses :: bool
  visionAutoFeedbackEnabled :: bool
  waitingForInput :: bool
  liveInputEnabled :: bool
  modelLabel :: jsstring
  draftText :: jsstring
  entries :: "TranscriptEntry list"
  userPartial :: jsstring
  agentPartial :: jsstring
  userPartialRef :: jsstring
  lastFrameCaptureAtRef :: int
  lastVisionFeedbackRequestAtRef :: int
  lastUserActivityAtRef :: int
  player :: playback
  textTurns :: "(jsstring \<times> bool) list"
  videoFrames :: "(jsstring \<times> jsstring) list"
  autoObserveTimer :: "(bool \<times> bool) option"
  autoFeedbackSent :: "int list"

definition initial_app :: app where
  "initial_app =
     \<lparr>micEnabled = False, cameraEnabled = False, speakResponses = True,
      visionAutoFeedbackEnabled = True, waitingForInput = False, liveInputEnabled = False,
      modelLabel = [], draftText = [], entries = [], userPartial = [], agentPartial = [],
      userPartialRef = [], lastFrameCaptureAtRef = 0, lastVisionFeedbackRequestAtRef = 0,
      lastUserActivityAtRef = 0, player = initial_playback, textTurns = [],
      videoFrames = [], autoObserveTimer = None, autoFeedbackSent = []\<rparr>"

definition sendTextTurn :: "jsstring \<Rightarrow> bool \<Rightarrow> app \<Rightarrow> app" where
  "sendTextTurn t turnComplete s = s\<lparr>textTurns := textTurns s @ [(t, turnComplete)]\<rparr>"

text \<open>A call of \<open>appendEntry\<close> from the component.\<close>

definition append_entry :: "jsstring \<Rightarrow> transcript_role \<Rightarrow> jsstring \<Rightarrow> app \<Rightarrow> app" where
  "append_entry newId r t s = s\<lparr>entries := appendEntry newId r t (entries s)\<rparr>"

definition flushUserPartial :: "jsstring \<Rightarrow> app \<Rightarrow> app" where
  "flushUserPartial newId s =
     (let pending = normalizeTranscriptText (userPartialRef s)
      in if pending = [] then s
         else (append_entry newId User pending s)\<lparr>userPartialRef := [], userPartial := []\<rparr>)"

text \<open>
  \<open>onServerMessage\<close> at time \<open>now\<close>; \<open>createId k\<close> is what the call number \<open>k\<close> of
  \<open>createId()\<close> in this handler returns.
\<close>

fun onServerMessage ::
  "int \<Rightarrow> (nat \<Rightarrow> jsstring) \<Rightarrow> ServerSocketMessage \<Rightarrow> app \<Rightarrow> app" where
  "onServerMessage now createId (ServerReady m) s = s\<lparr>modelLabel := m\<rparr>"
| "onServerMessage now createId (SessionConnected sessionId) s =
     append_entry (createId 0) Event
       (str ''Session connected'' @
        (case sessionId of
           None \<Rightarrow> []
         | Some i \<Rightarrow> if i = [] then [] else str '' ('' @ i @ str '')'') @
        str ''.'')
       (s\<lparr>lastUserActivityAtRef := now, lastVisionFeedbackRequestAtRef := 0\<rparr>)"
| "onServerMessage now createId (SessionClosed reason) s =
     (let s1 = flushUserPartial (createId 0) s;
          s2 = append_entry (createId 1) Event
                 (case reason of
                    None \<Rightarrow> str ''Session closed.''
                  | Some r \<Rightarrow>
                      if r = [] then str ''Session closed.'' else str ''Session closed: '' @ r)
                 s1
      in s2\<lparr>micEnabled := False, cameraEnabled := False, userPartial := [],
             agentPartial := [], lastFrameCaptureAtRef := 0,
             lastVisionFeedbackRequestAtRef := 0, lastUserActivityAtRef := 0,
             player := stop (player s2)\<rparr>)"
| "onServerMessage now createId (UserTranscript t finished) s =
     (let s1 = (if trim t \<noteq> [] then s\<lparr>lastUserActivityAtRef := now\<rparr> else s);
          s2 = s1\<lparr>userPartial := t, userPartialRef := t\<rparr>
      in if finished \<and> trim t \<noteq> []
         then (append_entry (createId 0) User t s2)\<lparr>userPartialRef := [], userPartial := []\<rparr>
         else s2)"
| "onServerMessage now createId (AgentTextDelta t) s =
     s\<lparr>agentPartial :=
         (if agentPartial s = [] then t
          else if take (length (agentPartial s)) t = agentPartial s then t
          else agentPartial s @ t)\<rparr>"
| "onServerMessage now createId (AgentAudioChunk d m) s =
     (if speakResponses s then s\<lparr>player := enqueueChunk d m (player s)\<rparr> else s)"
| "onServerMessage now createId AgentTurnComplete s =
     (let s1 = flushUserPartial (createId 0) s;
          trimmed = trim (agentPartial s1);
          s2 = (if trimmed \<noteq> [] then append_entry (createId 1) Agent trimmed s1 else s1)
      in s2\<lparr>agentPartial := []\<rparr>)"
| "onServerMessage now createId LiveInterrupted s =
     (let s1 = flushUserPartial (createId 0) s;
          s2 = append_entry (createId 1) Event
                 (str ''Model output interrupted by new user activity.'') s1
      in s2\<lparr>player := stop (player s2)\<rparr>)"
| "onServerMessage now createId (LiveWaitingInput waiting) s =
     s\<lparr>waitingForInput := waiting\<rparr>"
| "onServerMessage now createId (LiveError m) s =
     append_entry (createId 0) Event (str ''Live error: '' @ m) s"
| "onServerMessage now createId Pong s = s"

definition onMicStreamError :: "jsstring \<Rightarrow> jsstring \<Rightarrow> app \<Rightarrow> app" where
  "onMicStreamError newId m s =
     (append_entry newId Event (str ''Microphone error: '' @ m) s)\<lparr>micEnabled := False\<rparr>"

definition onCameraStreamError :: "jsstring \<Rightarrow> jsstring \<Rightarrow> app \<Rightarrow> app" where
  "onCameraStreamError newId m s =
     (append_entry newId Event (str ''Camera error: '' @ m) s)\<lparr>cameraEnabled := False\<rparr>"

definition onCameraFrame :: "int \<Rightarrow> jsstring \<Rightarrow> jsstring \<Rightarrow> app \<Rightarrow> app" where
  "onCameraFrame now d m s =
     s\<lparr>lastFrameCaptureAtRef := now, videoFrames := videoFrames s @ [(d, m)]\<rparr>"

text \<open>\<open>stopSession()\<close> of \<open>useLiveConnection\<close> sets the connection state to disconnected.\<close>

definition onStopSession :: "jsstring \<Rightarrow> app \<Rightarrow> app" where
  "onStopSession newId s =
     (let s1 = flushUserPartial newId s
      in s1\<lparr>liveInputEnabled := False, micEnabled := False, cameraEnabled := False,
             waitingForInput := False, lastFrameCaptureAtRef := 0,
             lastVisionFeedbackRequestAtRef := 0, lastUserActivityAtRef := 0,
             player := stop (player s1)\<rparr>)"

definition onSendText :: "int \<Rightarrow> jsstring \<Rightarrow> app \<Rightarrow> app" where
  "onSendText now newId s =
     (let trimmed = trim (draftText s)
      in if trimmed = [] then s
         else (append_entry newId User trimmed
                 ((sendTextTurn trimmed True s)\<lparr>lastUserActivityAtRef := now\<rparr>))
              \<lparr>draftText := []\<rparr>)"

text \<open>
  \<open>requestVisionFeedback\<close> is a \<open>useCallback\<close> closure over \<open>liveInputEnabled\<close> and
  \<open>cameraEnabled\<close>: its first two arguments here are the values the closure has captured.
  The refs are read when it runs.
\<close>

definition requestVisionFeedback ::
  "bool \<Rightarrow> bool \<Rightarrow> vision_mode \<Rightarrow> int \<Rightarrow> jsstring \<Rightarrow> app \<Rightarrow> app" where
  "requestVisionFeedback liveInput camera mode now newId s =
     (if \<not> liveInput \<or> \<not> camera then s
      else if mode = Auto \<and> now - lastVisionFeedbackRequestAtRef s < autoFeedbackCooldownMs
        then s
      else if mode = Auto \<and> now - lastFrameCaptureAtRef s > autoFeedbackFrameFreshnessMs
        then s
      else
        (let s1 = sendTextTurn
                    (if mode = Manual then manualVisionPrompt else autoVisionPrompt) True
                    (s\<lparr>lastVisionFeedbackRequestAtRef := now\<rparr>)
         in if mode = Manual
            then append_entry newId User (str ''[vision] analyze latest frame'')
                   (s1\<lparr>lastUserActivityAtRef := now\<rparr>)
            else s1\<lparr>autoFeedbackSent := autoFeedbackSent s1 @ [now]\<rparr>))"

text \<open>The button of the control panel calls the closure of the current render.\<close>

definition onRequestVisionFeedback :: "int \<Rightarrow> jsstring \<Rightarrow> app \<Rightarrow> app" where
  "onRequestVisionFeedback now newId s =
     requestVisionFeedback (liveInputEnabled s) (cameraEnabled s) Manual now newId s"

text \<open>
  One run of the auto-observe effect: the cleanup of the run before clears its timer, and
  the body installs a new timer if its guard holds. React runs the effect after a render in
  which one of its dependencies has changed, so it is a step of its own: until it runs, a
  timer installed earlier stays armed.
\<close>

definition auto_observe_effect :: "app \<Rightarrow> app" where
  "auto_observe_effect s =
     s\<lparr>autoObserveTimer :=
         (if \<not> visionAutoFeedbackEnabled s \<or> \<not> liveInputEnabled s \<or> \<not> cameraEnabled s \<or>
             \<not> waitingForInput s
          then None
          else Some (liveInputEnabled s, cameraEnabled s))\<rparr>"

text \<open>
  One firing, at time \<open>now\<close>, of the two-second timer: the callback given to
  \<open>window.setInterval\<close>. Without an armed timer there is no firing.
\<close>

definition auto_observe_interval :: "int \<Rightarrow> jsstring \<Rightarrow> app \<Rightarrow> app" where
  "auto_observe_interval now newId s =
     (case autoObserveTimer s of
        None \<Rightarrow> s
      | Some (liveInput, camera) \<Rightarrow>
          if now - lastUserActivityAtRef s < userSilenceThresholdMs then s
          else requestVisionFeedback liveInput camera Auto now newId s)"

text \<open>
  \<open>socket.onmessage\<close> of \<open>useLiveConnection\<close>: it sets the connection state on
  \<open>session.connected\<close> and \<open>session.closed\<close> and then calls \<open>onServerMessage\<close>.
\<close>

fun connection_state_update :: "ServerSocketMessage \<Rightarrow> app \<Rightarrow> app" where
  "connection_state_update (SessionConnected sessionId) s = s\<lparr>liveInputEnabled := True\<rparr>"
| "connection_state_update (SessionClosed reason) s = s\<lparr>liveInputEnabled := False\<rparr>"
| "connection_state_update message s = s"

definition socket_onmessage ::
  "int \<Rightarrow> (nat \<Rightarrow> jsstring) \<Rightarrow> ServerSocketMessage \<Rightarrow> app \<Rightarrow> app" where
  "socket_onmessage now createId message s =
     onServerMessage now createId message (connection_state_update message s)"

definition setCameraEnabled :: "bool \<Rightarrow> app \<Rightarrow> app" where
  "setCameraEnabled enabled s = s\<lparr>cameraEnabled := enabled\<rparr>"

section \<open>Invariants and sample inputs\<close>

text \<open>
  The invariant of a scheduler on which \<open>stop()\<close> is not called: the log of starts is
  ordered and free of overlap, and nothing in it starts or ends after the cursor.
\<close>

definition sched_inv :: "playback \<Rightarrow> bool" where
  "sched_inv s \<longleftrightarrow>
     back_to_back (started s) \<and> sorted (map fst (started s)) \<and>
     (\<forall>x \<in> set (started s). fst x \<le> nextPlayTimeRef s \<and> fst x + snd x \<le> nextPlayTimeRef s)"

text \<open>
  A run of three chunks, the third arriving while the first is being decoded:
  half a second of audio decoded at time 0, then two tenths of a second each, decoded at
  times 0.2 and 2.
\<close>

definition three_chunks :: "playback_event list" where
  "three_chunks =
     [EnqueueChunk (str ''AAAA'') (str ''audio/pcm;rate=24000''),
      EnqueueChunk (str ''BBBB'') (str ''audio/pcm;rate=24000''),
      Settle (Decoded 0 \<lparr>buf_length = 12000, buf_sampleRate = 24000\<rparr>),
      EnqueueChunk (str ''CCCC'') (str ''audio/pcm;rate=24000''),
      Settle (Decoded (1 / 5) \<lparr>buf_length = 2400, buf_sampleRate = 24000\<rparr>),
      Settle (Decoded 2 \<lparr>buf_length = 2400, buf_sampleRate = 24000\<rparr>)]"

text \<open>
  The state reached by three \<open>enqueueChunk\<close> calls on a fresh scheduler: the
  first chunk is being decoded, two are queued, context 0 is open.
\<close>

definition three_queued :: playback where
  "three_queued =
     playback_run
       [EnqueueChunk (str ''AAAA'') (str ''audio/pcm''),
        EnqueueChunk (str ''!!!!'') (str ''audio/pcm''),
        EnqueueChunk (str ''CCCC'') (str ''audio/pcm'')] initial_playback"

text \<open>
  Frames for the gate, with signatures of two cells: a first frame, and a frame that
  differs from it by 30 and 10 in its two cells.
\<close>

definition first_frame :: camera_frame where
  "first_frame =
     \<lparr>videoWidth = 960, videoHeight = 540, sceneSignature = Some [10, 20],
      dataUrl = str ''data:image/jpeg;base64,/9j/4AAQ''\<rparr>"

definition changed_frame :: camera_frame where
  "changed_frame =
     \<lparr>videoWidth = 960, videoHeight = 540, sceneSignature = Some [40, 30],
      dataUrl = str ''data:image/jpeg;base64,/9j/4BBR''\<rparr>"

text \<open>The gate after it has emitted \<open>first_frame\<close>.\<close>

definition gate_after_first :: scene_gate where
  "gate_after_first =
     \<lparr>lastSceneSample = Some [10, 20],
      onFrame_calls = [(str ''/9j/4AAQ'', str ''image/jpeg'')],
      emitted_samples = [[10, 20]]\<rparr>"

text \<open>
  A bridge with no session and one with session 7 open, and a session on which every call
  fails with \<open>Error("socket hang up")\<close>.
\<close>

definition idle_bridge :: bridge where
  "idle_bridge =
     \<lparr>apiKey = str ''key'', model = str ''gemini-live'', session = None, sent = [],
      calls = []\<rparr>"

definition open_bridge :: bridge where
  "open_bridge =
     \<lparr>apiKey = str ''key'', model = str ''gemini-live'', session = Some 7,
      sent = [SessionConnected None], calls = []\<rparr>"

definition failing_send :: session_behaviour where
  "failing_send =
     \<lparr>close_throws = Some (ErrorObject (str ''socket hang up'')),
      connect_result = Inl (ErrorObject (str ''socket hang up'')),
      send_throws = Some (ErrorObject (str ''socket hang up''))\<rparr>"

text \<open>A sequence of \<open>appendEntry\<close> calls, each with its id, role and text.\<close>

fun append_all ::
  "(jsstring \<times> transcript_role \<times> jsstring) list \<Rightarrow> TranscriptEntry list \<Rightarrow> TranscriptEntry list"
  where
  "append_all [] es = es"
| "append_all ((i, r, t) # rest) es = append_all rest (appendEntry i r t es)"

text \<open>
  Two logs: an agent reply followed by one user entry, and the same agent reply followed
  by four entries of other roles.
\<close>

definition recent_log :: "TranscriptEntry list" where
  "recent_log =
     [\<lparr>entry_id = str ''e1'', role = Agent, entry_text = str ''hi''\<rparr>,
      \<lparr>entry_id = str ''e2'', role = User, entry_text = str ''b''\<rparr>]"

definition older_log :: "TranscriptEntry list" where
  "older_log =
     [\<lparr>entry_id = str ''e1'', role = Agent, entry_text = str ''hi''\<rparr>,
      \<lparr>entry_id = str ''e2'', role = Event, entry_text = str ''a''\<rparr>,
      \<lparr>entry_id = str ''e3'', role = User, entry_text = str ''b''\<rparr>,
      \<lparr>entry_id = str ''e4'', role = Event, entry_text = str ''c''\<rparr>,
      \<lparr>entry_id = str ''e5'', role = User, entry_text = str ''d''\<rparr>]"

text \<open>
  The stamp of the last feedback request is current when it is not older than the last
  auto-mode feedback that was sent.
\<close>

definition stamp_current :: "app \<Rightarrow> bool" where
  "stamp_current s \<longleftrightarrow>
     autoFeedbackSent s = [] \<or> last (autoFeedbackSent s) \<le> lastVisionFeedbackRequestAtRef s"

text \<open>
  The component at time 140000 with everything the auto-observe heuristic asks for: the
  feature on, the session connected, the camera on, the session waiting for input, forty
  seconds of silence and since the last stamped request, and a frame captured a second ago;
  and the same after the effect has run and armed its timer.
\<close>

definition observing :: app where
  "observing =
     initial_app\<lparr>liveInputEnabled := True, cameraEnabled := True, waitingForInput := True,
                  lastUserActivityAtRef := 100000, lastVisionFeedbackRequestAtRef := 100000,
                  lastFrameCaptureAtRef := 139000\<rparr>"

definition armed_observing :: app where
  "armed_observing = auto_observe_effect observing"

text \<open>
  \<open>armed_observing\<close> after a \<open>live.waiting-input\<close> message that says false, before the effect
  has run again.
\<close>

definition signalled_false :: app where
  "signalled_false =
     socket_onmessage 139500 (\<lambda>k. str ''id'') (LiveWaitingInput False) armed_observing"

text \<open>
  A restart: the timer fires at 140000 and sends the auto prompt; the user stops the
  session; a session connects at 141000; the user turns the camera on; the session signals
  that it waits for input; a frame is captured at 150000; the effect runs.
\<close>

definition restarted :: app where
  "restarted =
     auto_observe_effect
       (onCameraFrame 150000 (str ''/9j/4AAQ'') (str ''image/jpeg'')
          (socket_onmessage 142000 (\<lambda>k. str ''id'') (LiveWaitingInput True)
             (setCameraEnabled True
                (socket_onmessage 141000 (\<lambda>k. str ''id'') (SessionConnected None)
                   (auto_observe_effect
                      (onStopSession (str ''id'')
                         (auto_observe_interval 140000 (str ''id'') armed_observing)))))))"

section \<open>The scheduler: ordering of scheduled audio\<close>

lemma duration_nonneg: "0 \<le> duration b"
  by (simp add: duration_def)

lemma scheduleBuffer_start:
  "started (scheduleBuffer now b s) =
     started s @ [(max (now + 1 / 100) (nextPlayTimeRef s), duration b)]"
  "nextPlayTimeRef (scheduleBuffer now b s) =
     max (now + 1 / 100) (nextPlayTimeRef s) + duration b"
  by (simp_all add: scheduleBuffer_def Let_def)

lemma drain_loop_started [simp]: "started (drain_loop s) = started s"
  by (simp add: drain_loop_def ensureContext_def split: list.splits option.splits)

lemma drain_loop_nextPlayTime [simp]: "nextPlayTimeRef (drain_loop s) = nextPlayTimeRef s"
  by (simp add: drain_loop_def ensureContext_def split: list.splits option.splits)

lemma enqueueChunk_started [simp]: "started (enqueueChunk d m s) = started s"
  by (simp add: enqueueChunk_def processQueue_def)

lemma enqueueChunk_nextPlayTime [simp]:
  "nextPlayTimeRef (enqueueChunk d m s) = nextPlayTimeRef s"
  by (simp add: enqueueChunk_def processQueue_def)

lemma settled_Decoded:
  assumes "awaiting s = Some c"
  shows "started (settled (Decoded now b) s) =
           started s @ [(max (now + 1 / 100) (nextPlayTimeRef s), duration b)]"
    and "nextPlayTimeRef (settled (Decoded now b) s) =
           max (now + 1 / 100) (nextPlayTimeRef s) + duration b"
  using assms by (simp_all add: settled_def scheduleBuffer_def Let_def)

lemma playback_run_append:
  "playback_run (xs @ ys) s = playback_run ys (playback_run xs s)"
  by (induction xs arbitrary: s) auto

lemma back_to_back_snoc:
  "back_to_back (xs @ [y]) \<longleftrightarrow>
     back_to_back xs \<and> (xs = [] \<or> fst (last xs) + snd (last xs) \<le> fst y)"
  by (induction xs rule: back_to_back.induct) auto

lemma sched_inv_cong:
  "started t = started s \<Longrightarrow> nextPlayTimeRef t = nextPlayTimeRef s \<Longrightarrow> sched_inv t = sched_inv s"
  by (simp add: sched_inv_def)

lemma sched_inv_initial: "sched_inv initial_playback"
  by (simp add: sched_inv_def initial_playback_def)

lemma sched_inv_scheduleBuffer:
  assumes inv: "sched_inv s"
  shows "sched_inv (scheduleBuffer now b s)"
proof -
  let ?a = "max (now + 1 / 100) (nextPlayTimeRef s)"
  have le: "\<forall>x \<in> set (started s). fst x \<le> ?a \<and> fst x + snd x \<le> ?a"
    using inv by (auto simp: sched_inv_def)
  have "started s \<noteq> [] \<Longrightarrow> fst (last (started s)) + snd (last (started s)) \<le> ?a"
    using le last_in_set by blast
  then have b: "back_to_back (started s @ [(?a, duration b)])"
    using inv by (auto simp: back_to_back_snoc sched_inv_def)
  have s: "sorted (map fst (started s @ [(?a, duration b)]))"
    using inv le by (auto simp: sorted_append sched_inv_def)
  have "\<forall>x \<in> set (started s @ [(?a, duration b)]).
          fst x \<le> ?a + duration b \<and> fst x + snd x \<le> ?a + duration b"
    using le duration_nonneg[of b] by (auto intro: order_trans add_increasing2)
  with b s show ?thesis
    unfolding sched_inv_def scheduleBuffer_start by blast
qed

lemma sched_inv_step:
  assumes "\<not> invokes_stop e" and "sched_inv s"
  shows "sched_inv (playback_step e s)"
proof (cases e)
  case (EnqueueChunk d m)
  then show ?thesis
    using assms(2) by (simp add: sched_inv_cong[of "enqueueChunk d m s" s])
next
  case Stop
  then show ?thesis using assms(1) by simp
next
  case (Settle outcome)
  then obtain now b where o: "outcome = Decoded now b"
    using assms(1) by (cases outcome) auto
  show ?thesis
  proof (cases "awaiting s")
    case None
    then show ?thesis using assms(2) Settle by (simp add: settled_def)
  next
    case (Some c)
    have "sched_inv (scheduleBuffer now b (s\<lparr>awaiting := None\<rparr>))"
      using assms(2) by (intro sched_inv_scheduleBuffer) (simp add: sched_inv_def)
    then show ?thesis
      using Some Settle o by (simp add: settled_def sched_inv_cong[of "drain_loop t" t for t])
  qed
qed

lemma nextPlayTime_step:
  assumes "\<not> invokes_stop e"
  shows "nextPlayTimeRef s \<le> nextPlayTimeRef (playback_step e s)"
proof (cases e)
  case (Settle outcome)
  then obtain now b where o: "outcome = Decoded now b"
    using assms by (cases outcome) auto
  show ?thesis
    using Settle o duration_nonneg[of b]
    by (cases "awaiting s") (auto simp: settled_def scheduleBuffer_start)
qed (use assms in auto)

lemma sched_inv_run:
  "\<forall>e \<in> set evs. \<not> invokes_stop e \<Longrightarrow> sched_inv s \<Longrightarrow> sched_inv (playback_run evs s)"
  by (induction evs arbitrary: s) (auto simp: sched_inv_step)

lemma nextPlayTime_run:
  "\<forall>e \<in> set evs. \<not> invokes_stop e \<Longrightarrow>
   nextPlayTimeRef s \<le> nextPlayTimeRef (playback_run evs s)"
proof (induction evs arbitrary: s)
  case Nil
  show ?case by simp
next
  case (Cons e es)
  have "nextPlayTimeRef s \<le> nextPlayTimeRef (playback_step e s)"
    using Cons.prems by (simp add: nextPlayTime_step)
  also have "\<dots> \<le> nextPlayTimeRef (playback_run es (playback_step e s))"
    using Cons by simp
  finally show ?case by simp
qed

text \<open>
  C1. Take any run of a fresh scheduler made of \<open>enqueueChunk\<close> calls and settlements of the
  drain loop in which \<open>stop()\<close> is never invoked (neither by the owner nor by the loop's
  \<open>catch\<close>). Then
  \<^item> whenever the suspended drain loop receives its decoded buffer, the buffer is started
    at \<open>max (now + 0.01) nextPlayTime\<close> and \<open>nextPlayTime\<close> becomes that start plus the
    buffer's duration;
  \<^item> the start times, in scheduling order, are non-decreasing;
  \<^item> every buffer starts at or after the end of the buffer scheduled before it;
  \<^item> \<open>nextPlayTime\<close> at any point of the run is at most its value at any later point.
\<close>

theorem playback_schedule_ordered:
  assumes "\<forall>e \<in> set evs. \<not> invokes_stop e"
  shows
    "(\<forall>pre now b post c.
        evs = pre @ Settle (Decoded now b) # post \<and>
        awaiting (playback_run pre initial_playback) = Some c \<longrightarrow>
          started (playback_run (pre @ [Settle (Decoded now b)]) initial_playback) =
            started (playback_run pre initial_playback) @
              [(max (now + 1 / 100) (nextPlayTimeRef (playback_run pre initial_playback)),
                duration b)] \<and>
          nextPlayTimeRef (playback_run (pre @ [Settle (Decoded now b)]) initial_playback) =
            max (now + 1 / 100) (nextPlayTimeRef (playback_run pre initial_playback)) +
            duration b) \<and>
     sorted (map fst (started (playback_run evs initial_playback))) \<and>
     back_to_back (started (playback_run evs initial_playback)) \<and>
     (\<forall>pre mid post. evs = pre @ mid @ post \<longrightarrow>
        nextPlayTimeRef (playback_run pre initial_playback) \<le>
        nextPlayTimeRef (playback_run (pre @ mid) initial_playback))"
proof (intro conjI allI impI)
  fix pre now b post c
  assume "evs = pre @ Settle (Decoded now b) # post \<and>
          awaiting (playback_run pre initial_playback) = Some c"
  then have aw: "awaiting (playback_run pre initial_playback) = Some c"
    by simp
  show "started (playback_run (pre @ [Settle (Decoded now b)]) initial_playback) =
          started (playback_run pre initial_playback) @
            [(max (now + 1 / 100) (nextPlayTimeRef (playback_run pre initial_playback)),
              duration b)]"
    by (simp add: playback_run_append settled_Decoded(1)[OF aw])
  show "nextPlayTimeRef (playback_run (pre @ [Settle (Decoded now b)]) initial_playback) =
          max (now + 1 / 100) (nextPlayTimeRef (playback_run pre initial_playback)) +
          duration b"
    by (simp add: playback_run_append settled_Decoded(2)[OF aw])
next
  have "sched_inv (playback_run evs initial_playback)"
    using assms sched_inv_initial by (rule sched_inv_run)
  then show "sorted (map fst (started (playback_run evs initial_playback)))"
    and "back_to_back (started (playback_run evs initial_playback))"
    by (simp_all add: sched_inv_def)
next
  fix pre mid post
  assume e: "evs = pre @ mid @ post"
  then have "\<forall>e \<in> set mid. \<not> invokes_stop e"
    using assms by simp
  then show "nextPlayTimeRef (playback_run pre initial_playback) \<le>
             nextPlayTimeRef (playback_run (pre @ mid) initial_playback)"
    unfolding playback_run_append by (rule nextPlayTime_run)
qed

lemma three_chunks_started:
  "started (playback_run three_chunks initial_playback) =
     [(1 / 100, 1 / 2), (51 / 100, 1 / 10), (201 / 100, 1 / 10)]"
  by (simp add: three_chunks_def str_def enqueueChunk_def processQueue_def
      initial_playback_def drain_loop_def ensureContext_def settled_def scheduleBuffer_def
      duration_def Let_def)

theorem playback_schedule_ordered_witness:
  "started (playback_run three_chunks initial_playback) =
     [(1 / 100, 1 / 2), (51 / 100, 1 / 10), (201 / 100, 1 / 10)] \<and>
   sorted (map fst (started (playback_run three_chunks initial_playback))) \<and>
   back_to_back (started (playback_run three_chunks initial_playback))"
proof -
  have h: "\<forall>e \<in> set three_chunks. \<not> invokes_stop e"
    by (simp add: three_chunks_def)
  from playback_schedule_ordered[OF h] three_chunks_started h show ?thesis
    by blast
qed

section \<open>The scheduler: a failed decode\<close>

lemma stop_fields:
  "queueRef (stop s) = []"
  "nextPlayTimeRef (stop s) = 0"
  "contextRef (stop s) = None"
  "started (stop s) = started s"
  "closedContexts (stop s) =
     (case contextRef s of None \<Rightarrow> closedContexts s | Some k \<Rightarrow> closedContexts s @ [k])"
  by (simp_all add: stop_def Let_def split: option.splits)

text \<open>
  C7. Whatever the queue holds, when the decoding of the chunk a drain pass is working on
  fails, the pass ends in \<open>stop()\<close>: the queue is empty, \<open>nextPlayTime\<close> is 0, there is no
  audio context any more (the one there was has been closed), the drain flag is cleared,
  and none of the chunks that were still queued has been started.
\<close>

theorem decode_failure_stops_playback:
  assumes "awaiting s = Some chunk"
  shows
    "settled DecodeFailed s = (stop (s\<lparr>awaiting := None\<rparr>))\<lparr>processingRef := False\<rparr> \<and>
     queueRef (settled DecodeFailed s) = [] \<and>
     nextPlayTimeRef (settled DecodeFailed s) = 0 \<and>
     contextRef (settled DecodeFailed s) = None \<and>
     closedContexts (settled DecodeFailed s) =
       (case contextRef s of None \<Rightarrow> closedContexts s | Some k \<Rightarrow> closedContexts s @ [k]) \<and>
     \<not> processingRef (settled DecodeFailed s) \<and>
     started (settled DecodeFailed s) = started s"
  using assms by (simp add: settled_def stop_fields split: option.splits)

lemma three_queued_eq:
  "three_queued =
     \<lparr>contextRef = Some 0,
      queueRef = [\<lparr>data = str ''!!!!'', mimeType = str ''audio/pcm''\<rparr>,
                  \<lparr>data = str ''CCCC'', mimeType = str ''audio/pcm''\<rparr>],
      processingRef = True, nextPlayTimeRef = 0,
      awaiting = Some \<lparr>data = str ''AAAA'', mimeType = str ''audio/pcm''\<rparr>,
      started = [], contextsCreated = 1, closedContexts = []\<rparr>"
  by (simp add: three_queued_def str_def enqueueChunk_def processQueue_def
      initial_playback_def drain_loop_def ensureContext_def)

theorem decode_failure_stops_playback_witness:
  "awaiting three_queued = Some \<lparr>data = str ''AAAA'', mimeType = str ''audio/pcm''\<rparr> \<and>
   length (queueRef three_queued) = 2 \<and>
   queueRef (settled DecodeFailed three_queued) = [] \<and>
   nextPlayTimeRef (settled DecodeFailed three_queued) = 0 \<and>
   contextRef (settled DecodeFailed three_queued) = None \<and>
   closedContexts (settled DecodeFailed three_queued) = [0] \<and>
   started (settled DecodeFailed three_queued) = []"
proof -
  have h: "awaiting three_queued = Some \<lparr>data = str ''AAAA'', mimeType = str ''audio/pcm''\<rparr>"
    by (simp add: three_queued_eq)
  have before:
    "length (queueRef three_queued) = 2" "contextRef three_queued = Some 0"
    "closedContexts three_queued = []" "started three_queued = []"
    by (simp_all add: three_queued_eq)
  from decode_failure_stops_playback[OF h] h before show ?thesis
    by (simp add: stop_fields)
qed

section \<open>The scheduler: an ignored call\<close>

text \<open>
  C9. \<open>enqueueChunk\<close> with an empty \<open>data\<close> or an empty \<open>mimeType\<close> changes nothing: the
  queue, \<open>nextPlayTime\<close>, the audio context and every other part of the state are as
  before, and no drain pass starts.
\<close>

theorem enqueueChunk_empty_noop:
  "enqueueChunk [] m s = s \<and> enqueueChunk d [] s = s"
  by (simp add: enqueueChunk_def)

section \<open>The scene-change gate: when a frame is emitted\<close>

lemma indexOf_ge: "- 1 \<le> indexOf xs c"
  by (induction xs) (auto simp: Let_def)

lemma indexOf_absent: "indexOf xs c = - 1 \<longleftrightarrow> c \<notin> set xs"
proof (induction xs)
  case Nil
  show ?case by simp
next
  case (Cons x xs)
  have "- 1 \<le> indexOf xs c"
    by (rule indexOf_ge)
  then have "indexOf xs c + 1 \<noteq> - 1"
    by arith
  with Cons show ?case
    by (auto simp: Let_def)
qed

lemma totalDiff_sum:
  "length a \<le> length b \<Longrightarrow> totalDiff a b = Some (\<Sum>i<length a. \<bar>a ! i - b ! i\<bar>)"
proof (induction a b rule: totalDiff.induct)
  case (3 x xs y ys)
  then have "totalDiff xs ys = Some (\<Sum>i<length xs. \<bar>xs ! i - ys ! i\<bar>)"
    by simp
  then show ?case
    by (simp del: sum.lessThan_Suc add: sum.lessThan_Suc_shift)
qed auto

lemma totalDiff_same: "totalDiff a a = Some 0"
  by (induction a) auto

lemma averageDiff_mean:
  "length a \<le> length b \<Longrightarrow> a \<noteq> [] \<Longrightarrow> averageDiff a b = Some (mean_abs_diff a b)"
  by (simp add: averageDiff_def totalDiff_sum mean_abs_diff_def)

lemma hasMeaningfulSceneChange_same:
  "0 < thr \<Longrightarrow> \<not> hasMeaningfulSceneChange thr (Some a) a"
  by (simp add: hasMeaningfulSceneChange_def averageDiff_def totalDiff_same)

lemma tick_valid:
  assumes "valid_frame f"
  shows "onFrame_calls (interval_tick thr f g) =
           (if hasMeaningfulSceneChange thr (lastSceneSample g) (the (sceneSignature f))
            then onFrame_calls g @
                   [(drop (nat (indexOf (dataUrl f) 44 + 1)) (dataUrl f), str ''image/jpeg'')]
            else onFrame_calls g)"
  using assms by (auto simp: valid_frame_def interval_tick_def Let_def indexOf_absent)

lemma first_frame_facts:
  "valid_frame first_frame"
  "sceneSignature first_frame = Some [10, 20]"
  "drop (nat (indexOf (dataUrl first_frame) 44 + 1)) (dataUrl first_frame) = str ''/9j/4AAQ''"
  by (simp_all add: first_frame_def valid_frame_def str_def Let_def)

lemma changed_frame_facts:
  "valid_frame changed_frame"
  "sceneSignature changed_frame = Some [40, 30]"
  "drop (nat (indexOf (dataUrl changed_frame) 44 + 1)) (dataUrl changed_frame) = str ''/9j/4BBR''"
  by (simp_all add: changed_frame_def valid_frame_def str_def Let_def)

lemma gate_after_first_eq: "interval_tick 12 first_frame initial_gate = gate_after_first"
  by (simp add: tick_valid first_frame_facts interval_tick_def initial_gate_def
      gate_after_first_def hasMeaningfulSceneChange_def Let_def)
    (simp add: first_frame_def str_def)

text \<open>
  C4. Take a tick with a valid frame. Then
  \<^item> with no retained signature (the first frame ever), the frame is emitted, whatever
    the threshold;
  \<^item> a frame whose signature equals the retained one is suppressed, at the threshold of
    the program and at every positive threshold;
  \<^item> with a retained signature of the same, non-zero number of cells (every signature
    \<open>getSceneSignature\<close> makes has 32 times 18 of them), the frame is emitted if and only if
    the mean absolute difference between its signature and the retained one is at least
    the threshold, whatever the threshold.
  An emitted frame is one call of \<open>onFrame\<close> with the part of the data URL after the first
  comma and the type \<open>image/jpeg\<close>. The retained signature is that of the last emitted
  frame, as shown for C5 below.
\<close>

theorem scene_gate_emission:
  assumes "valid_frame f" and "sceneSignature f = Some sample"
  shows
    "(lastSceneSample g = None \<longrightarrow>
        onFrame_calls (interval_tick thr f g) =
          onFrame_calls g @
            [(drop (nat (indexOf (dataUrl f) 44 + 1)) (dataUrl f), str ''image/jpeg'')]) \<and>
     (lastSceneSample g = Some sample \<longrightarrow>
        onFrame_calls (interval_tick default_sceneChangeThreshold f g) = onFrame_calls g) \<and>
     (lastSceneSample g = Some sample \<and> 0 < thr \<longrightarrow>
        onFrame_calls (interval_tick thr f g) = onFrame_calls g) \<and>
     (\<forall>prev. lastSceneSample g = Some prev \<and> length prev = length sample \<and> sample \<noteq> [] \<longrightarrow>
        onFrame_calls (interval_tick thr f g) =
          (if thr \<le> mean_abs_diff sample prev
           then onFrame_calls g @
                  [(drop (nat (indexOf (dataUrl f) 44 + 1)) (dataUrl f), str ''image/jpeg'')]
           else onFrame_calls g))"
proof (intro conjI allI impI)
  assume "lastSceneSample g = None"
  then show "onFrame_calls (interval_tick thr f g) =
          onFrame_calls g @
            [(drop (nat (indexOf (dataUrl f) 44 + 1)) (dataUrl f), str ''image/jpeg'')]"
    using assms by (simp add: tick_valid hasMeaningfulSceneChange_def)
next
  assume "lastSceneSample g = Some sample"
  then show "onFrame_calls (interval_tick default_sceneChangeThreshold f g) = onFrame_calls g"
    using assms
    by (simp add: tick_valid hasMeaningfulSceneChange_same default_sceneChangeThreshold_def)
next
  assume "lastSceneSample g = Some sample \<and> 0 < thr"
  then show "onFrame_calls (interval_tick thr f g) = onFrame_calls g"
    using assms by (simp add: tick_valid hasMeaningfulSceneChange_same)
next
  fix prev
  assume a: "lastSceneSample g = Some prev \<and> length prev = length sample \<and> sample \<noteq> []"
  then have "averageDiff sample prev = Some (mean_abs_diff sample prev)"
    by (simp add: averageDiff_mean)
  then have "hasMeaningfulSceneChange thr (lastSceneSample g) sample \<longleftrightarrow>
             thr \<le> mean_abs_diff sample prev"
    using a by (simp add: hasMeaningfulSceneChange_def)
  then show "onFrame_calls (interval_tick thr f g) =
          (if thr \<le> mean_abs_diff sample prev
           then onFrame_calls g @
                  [(drop (nat (indexOf (dataUrl f) 44 + 1)) (dataUrl f), str ''image/jpeg'')]
           else onFrame_calls g)"
    using assms by (simp add: tick_valid)
qed

text \<open>
  The theorem at the threshold of the program, 12: the first frame is emitted, the same
  frame again is suppressed, and a frame at mean distance 20 from the emitted one is
  emitted.
\<close>

theorem scene_gate_emission_witness:
  "onFrame_calls (interval_tick default_sceneChangeThreshold first_frame initial_gate) =
     [(str ''/9j/4AAQ'', str ''image/jpeg'')] \<and>
   onFrame_calls (interval_tick default_sceneChangeThreshold first_frame gate_after_first) =
     [(str ''/9j/4AAQ'', str ''image/jpeg'')] \<and>
   onFrame_calls (interval_tick 12 first_frame gate_after_first) =
     [(str ''/9j/4AAQ'', str ''image/jpeg'')] \<and>
   onFrame_calls (interval_tick default_sceneChangeThreshold changed_frame gate_after_first) =
     [(str ''/9j/4AAQ'', str ''image/jpeg''), (str ''/9j/4BBR'', str ''image/jpeg'')]"
proof -
  have m: "mean_abs_diff [40, 30] [10, 20] = 20"
    by (simp add: mean_abs_diff_def lessThan_Suc numeral_2_eq_2)
  note first = scene_gate_emission[OF first_frame_facts(1) first_frame_facts(2)]
  note changed = scene_gate_emission[OF changed_frame_facts(1) changed_frame_facts(2)]
  have "onFrame_calls (interval_tick default_sceneChangeThreshold first_frame initial_gate) =
          [(str ''/9j/4AAQ'', str ''image/jpeg'')]"
    using first[of initial_gate default_sceneChangeThreshold]
    by (simp add: initial_gate_def first_frame_facts(3))
  moreover have
    "onFrame_calls (interval_tick default_sceneChangeThreshold first_frame gate_after_first) =
          [(str ''/9j/4AAQ'', str ''image/jpeg'')]"
    using first[of gate_after_first 12] by (simp add: gate_after_first_def)
  moreover have "onFrame_calls (interval_tick 12 first_frame gate_after_first) =
          [(str ''/9j/4AAQ'', str ''image/jpeg'')]"
    using first[of gate_after_first 12] by (simp add: gate_after_first_def)
  moreover have
    "onFrame_calls (interval_tick default_sceneChangeThreshold changed_frame gate_after_first) =
          [(str ''/9j/4AAQ'', str ''image/jpeg''), (str ''/9j/4BBR'', str ''image/jpeg'')]"
    using changed[of gate_after_first default_sceneChangeThreshold] m
    by (simp add: gate_after_first_def changed_frame_facts(3) default_sceneChangeThreshold_def)
  ultimately show ?thesis
    by blast
qed

section \<open>The scene-change gate: which signature is retained\<close>

lemma tick_lastSceneSample:
  "lastSceneSample (interval_tick thr f g) =
     (if passes_gate thr f g then sceneSignature f else lastSceneSample g)"
  by (auto simp: interval_tick_def passes_gate_def Let_def split: option.splits)

lemma tick_emitted_samples:
  "emitted_samples (interval_tick thr f g) =
     (if passes_gate thr f g \<and> 44 \<in> set (dataUrl f)
      then emitted_samples g @ [the (sceneSignature f)]
      else emitted_samples g)"
  by (auto simp: interval_tick_def passes_gate_def Let_def indexOf_absent split: option.splits)

lemma tick_onFrame_calls:
  "onFrame_calls (interval_tick thr f g) =
     (if passes_gate thr f g \<and> 44 \<in> set (dataUrl f)
      then onFrame_calls g @
             [(drop (nat (indexOf (dataUrl f) 44 + 1)) (dataUrl f), str ''image/jpeg'')]
      else onFrame_calls g)"
  by (auto simp: interval_tick_def passes_gate_def Let_def indexOf_absent split: option.splits)

lemma retains_tick:
  "44 \<in> set (dataUrl f) \<Longrightarrow> retains_last_emitted g \<Longrightarrow>
   retains_last_emitted (interval_tick thr f g)"
  by (auto simp: retains_last_emitted_def tick_lastSceneSample tick_emitted_samples
      passes_gate_def split: option.splits)

lemma retains_run:
  "\<forall>f \<in> set fs. 44 \<in> set (dataUrl f) \<Longrightarrow> retains_last_emitted g \<Longrightarrow>
   retains_last_emitted (gate_run thr fs g)"
  by (induction fs arbitrary: g) (auto simp: retains_tick)

text \<open>
  C5. Take a tick whose data URL has its comma, as every data URL has. If the tick emits
  the frame, the retained signature becomes the signature of that frame; if it does not,
  the retained signature is left as it was. So a gate that retains the signature of the
  last frame it emitted still does so after the tick, and over any sequence of ticks the
  gate, started empty, retains the signature of the last frame passed to \<open>onFrame\<close> (none
  before the first).
\<close>

theorem scene_gate_retention:
  assumes "44 \<in> set (dataUrl f)"
  shows
    "(onFrame_calls (interval_tick thr f g) \<noteq> onFrame_calls g \<longrightarrow>
        sceneSignature f \<noteq> None \<and>
        lastSceneSample (interval_tick thr f g) = sceneSignature f \<and>
        emitted_samples (interval_tick thr f g) =
          emitted_samples g @ [the (sceneSignature f)]) \<and>
     (onFrame_calls (interval_tick thr f g) = onFrame_calls g \<longrightarrow>
        lastSceneSample (interval_tick thr f g) = lastSceneSample g \<and>
        emitted_samples (interval_tick thr f g) = emitted_samples g) \<and>
     (retains_last_emitted g \<longrightarrow> retains_last_emitted (interval_tick thr f g)) \<and>
     ((\<forall>x \<in> set fs. 44 \<in> set (dataUrl x)) \<longrightarrow>
        retains_last_emitted (gate_run thr fs initial_gate))"
proof (intro conjI impI)
  assume e: "onFrame_calls (interval_tick thr f g) \<noteq> onFrame_calls g"
  then have p: "passes_gate thr f g"
    by (simp add: tick_onFrame_calls split: if_splits)
  then show "sceneSignature f \<noteq> None"
    by (auto simp: passes_gate_def split: option.splits)
  show "lastSceneSample (interval_tick thr f g) = sceneSignature f"
    using p by (simp add: tick_lastSceneSample)
  show "emitted_samples (interval_tick thr f g) = emitted_samples g @ [the (sceneSignature f)]"
    using p assms by (simp add: tick_emitted_samples)
next
  assume "onFrame_calls (interval_tick thr f g) = onFrame_calls g"
  then have p: "\<not> passes_gate thr f g"
    using assms by (simp add: tick_onFrame_calls split: if_splits)
  then show "lastSceneSample (interval_tick thr f g) = lastSceneSample g"
    by (simp add: tick_lastSceneSample)
  show "emitted_samples (interval_tick thr f g) = emitted_samples g"
    using p by (simp add: tick_emitted_samples)
next
  assume "retains_last_emitted g"
  with assms show "retains_last_emitted (interval_tick thr f g)"
    by (rule retains_tick)
next
  assume "\<forall>x \<in> set fs. 44 \<in> set (dataUrl x)"
  then show "retains_last_emitted (gate_run thr fs initial_gate)"
    by (rule retains_run) (simp add: retains_last_emitted_def initial_gate_def)
qed

text \<open>
  The theorem at the threshold 12 on the gate that has emitted the first frame: the same
  frame again is not emitted and the first signature stays; a changed frame is emitted and
  its signature is retained; and after the three ticks the gate retains the signature of
  the last frame it emitted.
\<close>

theorem scene_gate_retention_witness:
  "onFrame_calls (interval_tick 12 first_frame gate_after_first) =
     onFrame_calls gate_after_first \<and>
   lastSceneSample (interval_tick 12 first_frame gate_after_first) = Some [10, 20] \<and>
   onFrame_calls (interval_tick 12 changed_frame gate_after_first) \<noteq>
     onFrame_calls gate_after_first \<and>
   lastSceneSample (interval_tick 12 changed_frame gate_after_first) = Some [40, 30] \<and>
   retains_last_emitted (gate_run 12 [first_frame, first_frame, changed_frame] initial_gate)"
proof -
  have commas: "44 \<in> set (dataUrl first_frame)" "44 \<in> set (dataUrl changed_frame)"
    using first_frame_facts(1) changed_frame_facts(1) by (simp_all add: valid_frame_def)
  have same: "onFrame_calls (interval_tick 12 first_frame gate_after_first) =
                onFrame_calls gate_after_first"
    by (simp add: tick_onFrame_calls passes_gate_def first_frame_def gate_after_first_def
        hasMeaningfulSceneChange_def averageDiff_def)
  have diff: "onFrame_calls (interval_tick 12 changed_frame gate_after_first) \<noteq>
                onFrame_calls gate_after_first"
    using commas(2) changed_frame_facts(1)
    by (simp add: tick_onFrame_calls passes_gate_def changed_frame_facts(2)
        gate_after_first_def hasMeaningfulSceneChange_def averageDiff_def valid_frame_def)
  have all_commas:
    "\<forall>x \<in> set [first_frame, first_frame, changed_frame]. 44 \<in> set (dataUrl x)"
    using commas by simp
  from scene_gate_retention[OF commas(1), of 12 gate_after_first
      "[first_frame, first_frame, changed_frame]"]
    scene_gate_retention[OF commas(2), of 12 gate_after_first
      "[first_frame, first_frame, changed_frame]"]
    same diff all_commas
  show ?thesis
    by (simp add: first_frame_facts(2) changed_frame_facts(2) gate_after_first_def)
qed

section \<open>The session bridge: failures stay inside the handler\<close>

lemma disconnect_throws:
  "disconnect env reason b = (Some e, b1) \<Longrightarrow>
   sent b1 = sent b \<and> apiKey b1 = apiKey b \<and> model b1 = model b"
  by (auto simp: disconnect_def external_call_def send_def Let_def split: option.splits)

lemma disconnect_returns:
  "disconnect env reason b = (None, b1) \<Longrightarrow>
   (sent b1 = sent b \<or> sent b1 = sent b @ [SessionClosed reason]) \<and>
   apiKey b1 = apiKey b \<and> model b1 = model b"
  by (auto simp: disconnect_def external_call_def send_def Let_def split: option.splits)

lemma connect_throws:
  assumes "connect env si b = (Some e, b1)"
  shows "(sent b1 = sent b \<or>
          sent b1 = sent b @ [SessionClosed (Some (str ''Reconnecting session.''))]) \<and>
         apiKey b1 = apiKey b \<and> model b1 = model b"
  using assms
  by (cases "apiKey b = []"; cases "session b"; cases "close_throws env";
      cases "connect_result env";
      simp add: connect_def disconnect_def external_call_def send_def Let_def)
    auto

lemma connect_keys:
  assumes "connect env si b = (r, b1)"
  shows "apiKey b1 = apiKey b \<and> model b1 = model b"
  using assms
  by (cases "apiKey b = []"; cases "session b"; cases "close_throws env";
      cases "connect_result env";
      simp add: connect_def disconnect_def external_call_def send_def Let_def)
    auto

lemma dispatch_needs_session:
  assumes "\<forall>si. message \<noteq> SessionConnect si" "message \<noteq> SessionDisconnect" "message \<noteq> Ping"
  shows "dispatch env message b =
           (case session b of
              None \<Rightarrow>
                (None, send (LiveError (str ''No active Live session. Click connect first.'')) b)
            | Some h \<Rightarrow>
                (case session_request h message of
                   None \<Rightarrow> (None, b)
                 | Some c \<Rightarrow> (send_throws env, external_call c b)))"
  using assms by (cases message; cases "session b"; simp)

lemma message_cases:
  obtains (connect) si where "message = SessionConnect si"
  | (disconnect) "message = SessionDisconnect"
  | (ping) "message = Ping"
  | (other) "\<forall>si. message \<noteq> SessionConnect si" "message \<noteq> SessionDisconnect"
      "message \<noteq> Ping"
  by blast

lemma dispatch_throws:
  assumes "dispatch env message b = (Some e, b1)"
  shows "(sent b1 = sent b \<or>
          sent b1 = sent b @ [SessionClosed (Some (str ''Reconnecting session.''))]) \<and>
         apiKey b1 = apiKey b \<and> model b1 = model b"
proof (cases message rule: message_cases)
  case (connect si)
  then show ?thesis
    using assms connect_throws by simp
next
  case disconnect
  then show ?thesis
    using assms disconnect_throws[of env _ b e b1] by simp
next
  case ping
  then show ?thesis
    using assms by simp
next
  case other
  then have "dispatch env message b =
           (case session b of
              None \<Rightarrow>
                (None, send (LiveError (str ''No active Live session. Click connect first.'')) b)
            | Some h \<Rightarrow>
                (case session_request h message of
                   None \<Rightarrow> (None, b)
                 | Some c \<Rightarrow> (send_throws env, external_call c b)))"
    by (rule dispatch_needs_session)
  then show ?thesis
    using assms by (simp add: external_call_def split: option.splits)
qed

lemma dispatch_keys:
  assumes "dispatch env message b = (r, b1)"
  shows "apiKey b1 = apiKey b \<and> model b1 = model b"
proof (cases message rule: message_cases)
  case (connect si)
  then show ?thesis
    using assms connect_keys by simp
next
  case disconnect
  then show ?thesis
    using assms disconnect_throws[of env _ b _ b1] disconnect_returns[of env _ b b1]
    by (cases r) auto
next
  case ping
  then show ?thesis
    using assms by (auto simp: send_def)
next
  case other
  then have "dispatch env message b =
           (case session b of
              None \<Rightarrow>
                (None, send (LiveError (str ''No active Live session. Click connect first.'')) b)
            | Some h \<Rightarrow>
                (case session_request h message of
                   None \<Rightarrow> (None, b)
                 | Some c \<Rightarrow> (send_throws env, external_call c b)))"
    by (rule dispatch_needs_session)
  then show ?thesis
    using assms by (auto simp add: external_call_def send_def split: option.splits)
qed

text \<open>
  C3. For every client message, every bridge and every behaviour of the external session:
  \<^item> \<open>handleClientMessage\<close> returns without an exception;
  \<^item> the bridge is still there afterwards, with its key and model;
  \<^item> when a call on the session fails inside the handler (\<open>close\<close>, \<open>sendClientContent\<close> or
    \<open>sendRealtimeInput\<close> throws, or the awaited \<open>connect\<close> throws or rejects), the messages
    the handler sends contain exactly one \<open>live.error\<close>, it carries the message of the
    error, and it is the last message sent;
  \<^item> a failure the session reports later, through its \<open>onerror\<close> callback, is sent as one
    \<open>live.error\<close> and leaves the session as it is.
\<close>

theorem handleClientMessage_contains_failures:
  "fst (handleClientMessage env message b) = None \<and>
   apiKey (snd (handleClientMessage env message b)) = apiKey b \<and>
   model (snd (handleClientMessage env message b)) = model b \<and>
   (\<forall>e. fst (dispatch env message b) = Some e \<longrightarrow>
      filter is_live_error (emitted env message b) = [LiveError (error_message e)] \<and>
      last (sent (snd (handleClientMessage env message b))) = LiveError (error_message e)) \<and>
   filter is_live_error (drop (length (sent b)) (sent (onerror m b))) =
     drop (length (sent b)) (sent (onerror m b)) \<and>
   length (drop (length (sent b)) (sent (onerror m b))) = 1 \<and>
   session (onerror m b) = session b"
proof -
  obtain r b1 where d: "dispatch env message b = (r, b1)"
    by fastforce
  have k: "apiKey b1 = apiKey b \<and> model b1 = model b"
    using d by (rule dispatch_keys)
  have cb: "filter is_live_error (drop (length (sent b)) (sent (onerror m b))) =
              drop (length (sent b)) (sent (onerror m b)) \<and>
            length (drop (length (sent b)) (sent (onerror m b))) = 1 \<and>
            session (onerror m b) = session b"
    by (simp add: onerror_def send_def)
  show ?thesis
  proof (cases r)
    case None
    then show ?thesis
      using d k cb by (simp add: handleClientMessage_def)
  next
    case (Some e)
    have "sent b1 = sent b \<or>
          sent b1 = sent b @ [SessionClosed (Some (str ''Reconnecting session.''))]"
      using d Some dispatch_throws by blast
    then show ?thesis
      using d k Some cb by (auto simp: handleClientMessage_def emitted_def send_def)
  qed
qed

text \<open>
  The theorem at a bridge with session 7 open, for a text turn on which
  \<open>sendClientContent\<close> throws \<open>Error("socket hang up")\<close>.
\<close>

theorem handleClientMessage_contains_failures_witness:
  "fst (dispatch failing_send (TextTurn (str ''hello'') None) open_bridge) =
     Some (ErrorObject (str ''socket hang up'')) \<and>
   fst (handleClientMessage failing_send (TextTurn (str ''hello'') None) open_bridge) = None \<and>
   filter is_live_error (emitted failing_send (TextTurn (str ''hello'') None) open_bridge) =
     [LiveError (str ''socket hang up'')] \<and>
   emitted failing_send (TextTurn (str ''hello'') None) open_bridge =
     [LiveError (str ''socket hang up'')]"
proof -
  have h: "fst (dispatch failing_send (TextTurn (str ''hello'') None) open_bridge) =
             Some (ErrorObject (str ''socket hang up''))"
    by (simp add: failing_send_def open_bridge_def)
  have m: "error_message (ErrorObject (str ''socket hang up'')) = str ''socket hang up''"
    by (simp add: error_message_def)
  have e: "emitted failing_send (TextTurn (str ''hello'') None) open_bridge =
             [LiveError (str ''socket hang up'')]"
    by (simp add: emitted_def handleClientMessage_def failing_send_def open_bridge_def
        send_def external_call_def error_message_def)
  from handleClientMessage_contains_failures
         [of failing_send "TextTurn (str ''hello'') None" open_bridge]
    h m
  have "fst (handleClientMessage failing_send (TextTurn (str ''hello'') None) open_bridge) = None \<and>
        filter is_live_error
          (emitted failing_send (TextTurn (str ''hello'') None) open_bridge) =
          [LiveError (str ''socket hang up'')]"
    by simp
  with h e show ?thesis
    by blast
qed

section \<open>The session bridge: no session, no call\<close>

text \<open>
  C6. When no session is open, a message that is not \<open>session.connect\<close>,
  \<open>session.disconnect\<close> or \<open>ping\<close> makes \<open>handleClientMessage\<close> send exactly one message,
  the \<open>live.error\<close> that says there is no active session, and changes nothing else: no call
  is made on the external session.
\<close>

theorem handleClientMessage_no_session:
  assumes "session b = None"
    and "\<forall>si. message \<noteq> SessionConnect si"
    and "message \<noteq> SessionDisconnect"
    and "message \<noteq> Ping"
  shows
    "handleClientMessage env message b =
       (None,
        b\<lparr>sent := sent b @ [LiveError (str ''No active Live session. Click connect first.'')]\<rparr>) \<and>
     emitted env message b = [LiveError (str ''No active Live session. Click connect first.'')] \<and>
     calls (snd (handleClientMessage env message b)) = calls b"
proof -
  have "dispatch env message b =
          (None, send (LiveError (str ''No active Live session. Click connect first.'')) b)"
    using assms by (simp add: dispatch_needs_session)
  then show ?thesis
    by (simp add: handleClientMessage_def send_def emitted_def)
qed

text \<open>The theorem for a video frame that reaches a bridge which has no session.\<close>

theorem handleClientMessage_no_session_witness:
  "session idle_bridge = None \<and>
   emitted failing_send (VideoFrame (str ''AAAA'') (str ''image/jpeg'')) idle_bridge =
     [LiveError (str ''No active Live session. Click connect first.'')] \<and>
   calls (snd (handleClientMessage failing_send
                 (VideoFrame (str ''AAAA'') (str ''image/jpeg'')) idle_bridge)) = []"
proof -
  have s: "session idle_bridge = None" and c: "calls idle_bridge = []"
    by (simp_all add: idle_bridge_def)
  from handleClientMessage_no_session
         [of idle_bridge "VideoFrame (str ''AAAA'') (str ''image/jpeg'')" failing_send]
    s c
  show ?thesis
    by simp
qed

section \<open>The transcript: deduplication\<close>

lemma is_js_space_numeral [simp]:
  "is_js_space (numeral k) \<longleftrightarrow>
     (9 \<le> (numeral k :: nat) \<and> (numeral k :: nat) \<le> 13) \<or> (numeral k :: nat) = 32 \<or>
     (numeral k :: nat) = 160 \<or> (numeral k :: nat) = 5760 \<or>
     (8192 \<le> (numeral k :: nat) \<and> (numeral k :: nat) \<le> 8202) \<or>
     (numeral k :: nat) = 8232 \<or> (numeral k :: nat) = 8233 \<or> (numeral k :: nat) = 8239 \<or>
     (numeral k :: nat) = 8287 \<or> (numeral k :: nat) = 12288 \<or> (numeral k :: nat) = 65279"
  by (simp add: is_js_space_def)

lemma normalize_samples:
  "normalizeTranscriptText (str ''hi'') = str ''hi''"
  "normalizeTranscriptText (str ''a'') = str ''a''"
  "normalizeTranscriptText (str ''b'') = str ''b''"
  "normalizeTranscriptText (str ''c'') = str ''c''"
  "normalizeTranscriptText (str ''d'') = str ''d''"
  "normalizeTranscriptText (str '' b  '') = str ''b''"
  "normalizeTranscriptText (str ''  '') = []"
  "normalizeTranscriptText (str '' see  the mug '') = str ''see the mug''"
  by (simp_all add: normalizeTranscriptText_def trim_def str_def)

lemma str_samples_distinct:
  "str ''b'' \<noteq> str ''c''" "str ''d'' \<noteq> str ''hi''" "str ''b'' \<noteq> str ''hi''"
  "str ''c'' \<noteq> []" "str ''hi'' \<noteq> []" "str ''b'' \<noteq> []"
  by (simp_all add: str_def)

text \<open>
  C2, as the code has it. When an entry is committed,
  \<^item> it is dropped if the last entry of the log has the same role and the same text after
    normalisation;
  \<^item> an agent entry is dropped if its normalised text is that of an agent entry among the
    last four entries of the log;
  \<^item> an entry with a text that is not blank, which neither rule drops, is appended with its
    normalised text.
\<close>

theorem appendEntry_dedup:
  "(previous \<noteq> [] \<and> role (last previous) = r \<and>
      normalizeTranscriptText (entry_text (last previous)) = normalizeTranscriptText t \<longrightarrow>
    appendEntry i r t previous = previous) \<and>
   (r = Agent \<and>
      (\<exists>item \<in> set (slice_last 4 previous).
         role item = Agent \<and>
         normalizeTranscriptText (entry_text item) = normalizeTranscriptText t) \<longrightarrow>
    appendEntry i r t previous = previous) \<and>
   (normalizeTranscriptText t \<noteq> [] \<and>
      \<not> (previous \<noteq> [] \<and> role (last previous) = r \<and>
         normalizeTranscriptText (entry_text (last previous)) = normalizeTranscriptText t) \<and>
      \<not> (r = Agent \<and>
         (\<exists>item \<in> set (slice_last 4 previous).
            role item = Agent \<and>
            normalizeTranscriptText (entry_text item) = normalizeTranscriptText t)) \<longrightarrow>
    appendEntry i r t previous =
      previous @ [\<lparr>entry_id = i, role = r, entry_text = normalizeTranscriptText t\<rparr>])"
  by (auto simp: appendEntry_def Let_def list_ex_iff)

text \<open>
  The theorem on a log that ends with an agent reply and a user entry: the user entry
  again (with other spacing) is dropped, the agent reply again is dropped, a new user
  entry is appended.
\<close>

theorem appendEntry_dedup_witness:
  "appendEntry (str ''n'') User (str '' b  '') recent_log = recent_log \<and>
   appendEntry (str ''n'') Agent (str ''hi'') recent_log = recent_log \<and>
   appendEntry (str ''n'') User (str ''c'') recent_log =
     recent_log @ [\<lparr>entry_id = str ''n'', role = User, entry_text = str ''c''\<rparr>]"
proof -
  have "appendEntry (str ''n'') User (str '' b  '') recent_log = recent_log"
    using appendEntry_dedup[of recent_log User "str '' b  ''" "str ''n''"]
    by (simp add: recent_log_def normalize_samples)
  moreover have "appendEntry (str ''n'') Agent (str ''hi'') recent_log = recent_log"
    using appendEntry_dedup[of recent_log Agent "str ''hi''" "str ''n''"]
    by (simp add: recent_log_def slice_last_def normalize_samples)
  moreover have "appendEntry (str ''n'') User (str ''c'') recent_log =
     recent_log @ [\<lparr>entry_id = str ''n'', role = User, entry_text = str ''c''\<rparr>]"
    using appendEntry_dedup[of recent_log User "str ''c''" "str ''n''"]
    by (simp add: recent_log_def normalize_samples str_samples_distinct)
  ultimately show ?thesis
    by blast
qed

text \<open>
  The claim as it was stated fails when the matching agent entry is one of the last four
  agent entries but not among the last four entries: the only agent entry of \<open>older_log\<close>
  has the text \<open>hi\<close>, four entries of other roles follow it, and an agent entry \<open>hi\<close> is
  appended.
\<close>

theorem appendEntry_dedup_counterexample:
  "matches_last_four_agent_entries (str ''hi'') older_log \<and>
   appendEntry (str ''n'') Agent (str ''hi'') older_log =
     older_log @ [\<lparr>entry_id = str ''n'', role = Agent, entry_text = str ''hi''\<rparr>]"
  by (simp add: matches_last_four_agent_entries_def last_four_agent_entries_def
      appendEntry_def older_log_def slice_last_def normalize_samples str_samples_distinct
      Let_def)

section \<open>The transcript: no blank entries\<close>

lemma nonspace_dropWhile:
  "(\<exists>c \<in> set (dropWhile is_js_space v). \<not> is_js_space c) \<longleftrightarrow>
   (\<exists>c \<in> set v. \<not> is_js_space c)"
  by (induction v) auto

lemma nonspace_replace_ws_runs:
  "(\<exists>c \<in> set (replace_ws_runs v). \<not> is_js_space c) \<longleftrightarrow> (\<exists>c \<in> set v. \<not> is_js_space c)"
proof (induction v rule: replace_ws_runs.induct)
  case 1
  show ?case by simp
next
  case (2 c cs)
  show ?case
  proof (cases "is_js_space c")
    case True
    have "is_js_space 32"
      by simp
    then show ?thesis
      using True 2(1)[OF True] nonspace_dropWhile[of cs] by simp
  next
    case False
    then show ?thesis
      using 2(2) by simp
  qed
qed

lemma trim_nonempty: "trim v \<noteq> [] \<longleftrightarrow> (\<exists>c \<in> set v. \<not> is_js_space c)"
proof -
  have "trim v = [] \<longleftrightarrow> (\<forall>c \<in> set (dropWhile is_js_space v). is_js_space c)"
    by (simp add: trim_def dropWhile_eq_Nil_conv)
  then show ?thesis
    using nonspace_dropWhile[of v] by blast
qed

lemma trim_keeps_nonspace:
  "(\<exists>c \<in> set (trim v). \<not> is_js_space c) \<longleftrightarrow> (\<exists>c \<in> set v. \<not> is_js_space c)"
proof -
  have "(\<exists>c \<in> set (trim v). \<not> is_js_space c) \<longleftrightarrow>
        (\<exists>c \<in> set (dropWhile is_js_space (rev (dropWhile is_js_space v))). \<not> is_js_space c)"
    by (simp add: trim_def)
  also have "\<dots> \<longleftrightarrow> (\<exists>c \<in> set (rev (dropWhile is_js_space v)). \<not> is_js_space c)"
    by (rule nonspace_dropWhile)
  also have "\<dots> \<longleftrightarrow> (\<exists>c \<in> set v. \<not> is_js_space c)"
    using nonspace_dropWhile[of v] by simp
  finally show ?thesis .
qed

lemma normalize_nonempty:
  "normalizeTranscriptText v \<noteq> [] \<longleftrightarrow> (\<exists>c \<in> set v. \<not> is_js_space c)"
  by (simp add: normalizeTranscriptText_def trim_nonempty nonspace_replace_ws_runs)

lemma normalize_keeps_nonspace:
  "(\<exists>c \<in> set (normalizeTranscriptText v). \<not> is_js_space c) \<longleftrightarrow>
   (\<exists>c \<in> set v. \<not> is_js_space c)"
  by (simp add: normalizeTranscriptText_def trim_keeps_nonspace nonspace_replace_ws_runs)

lemma normalize_twice_nonempty:
  "normalizeTranscriptText (normalizeTranscriptText v) \<noteq> [] \<longleftrightarrow>
   normalizeTranscriptText v \<noteq> []"
  by (simp add: normalize_nonempty normalize_keeps_nonspace)

lemma appendEntry_nonblank:
  "nonblank_log es \<Longrightarrow> nonblank_log (appendEntry i r t es)"
  by (simp add: appendEntry_def nonblank_log_def Let_def normalize_twice_nonempty)

lemma append_all_nonblank:
  "nonblank_log es \<Longrightarrow> nonblank_log (append_all reqs es)"
  by (induction reqs es rule: append_all.induct) (simp_all add: appendEntry_nonblank)

lemma append_entry_nonblank:
  "nonblank_log (entries s) \<Longrightarrow> nonblank_log (entries (append_entry i r t s))"
  by (simp add: append_entry_def appendEntry_nonblank)

lemma flushUserPartial_nonblank:
  "nonblank_log (entries s) \<Longrightarrow> nonblank_log (entries (flushUserPartial i s))"
  by (simp add: flushUserPartial_def Let_def append_entry_nonblank)

lemma onServerMessage_nonblank:
  "nonblank_log (entries s) \<Longrightarrow> nonblank_log (entries (onServerMessage now ids m s))"
  by (cases m)
    (simp_all add: Let_def appendEntry_nonblank flushUserPartial_nonblank append_entry_def)

lemma handlers_nonblank:
  assumes "nonblank_log (entries s)"
  shows "nonblank_log (entries (onSendText now i s))"
    and "nonblank_log (entries (requestVisionFeedback l c mode now i s))"
    and "nonblank_log (entries (onRequestVisionFeedback now i s))"
    and "nonblank_log (entries (onStopSession i s))"
    and "nonblank_log (entries (onMicStreamError i m s))"
    and "nonblank_log (entries (onCameraStreamError i m s))"
    and "nonblank_log (entries (onCameraFrame now d m s))"
  using assms
  by (simp_all add: onSendText_def requestVisionFeedback_def onRequestVisionFeedback_def
      onStopSession_def onMicStreamError_def onCameraStreamError_def onCameraFrame_def
      Let_def append_entry_def appendEntry_nonblank sendTextTurn_def
      flushUserPartial_nonblank)

text \<open>
  C10. \<open>appendEntry\<close> leaves the log as it is when the text it is given is blank after
  normalisation, whatever the role; otherwise it leaves the log as it is or appends one
  entry whose text is the normalised text. A log in which no entry has a blank text stays
  such a log under \<open>appendEntry\<close>, and so under every operation of the component that
  appends: \<open>flushUserPartial\<close>, \<open>onServerMessage\<close>, sending a text, asking for vision
  feedback, stopping the session, and the two stream error handlers. The empty log is such
  a log, and so is every log that calls of \<open>appendEntry\<close> build from it.
\<close>

theorem transcript_log_nonblank:
  "(normalizeTranscriptText t = [] \<longrightarrow> appendEntry i r t es = es) \<and>
   (appendEntry i r t es = es \<or>
    appendEntry i r t es =
      es @ [\<lparr>entry_id = i, role = r, entry_text = normalizeTranscriptText t\<rparr>]) \<and>
   (nonblank_log es \<longrightarrow> nonblank_log (appendEntry i r t es)) \<and>
   (nonblank_log (entries s) \<longrightarrow>
      nonblank_log (entries (flushUserPartial i s)) \<and>
      nonblank_log (entries (onServerMessage now ids m s)) \<and>
      nonblank_log (entries (onSendText now i s)) \<and>
      nonblank_log (entries (requestVisionFeedback l c mode now i s)) \<and>
      nonblank_log (entries (onStopSession i s)) \<and>
      nonblank_log (entries (onMicStreamError i e s)) \<and>
      nonblank_log (entries (onCameraStreamError i e s))) \<and>
   nonblank_log [] \<and>
   nonblank_log (append_all reqs [])"
proof -
  have drop: "normalizeTranscriptText t = [] \<longrightarrow> appendEntry i r t es = es"
    by (simp add: appendEntry_def)
  have shape: "appendEntry i r t es = es \<or>
    appendEntry i r t es =
      es @ [\<lparr>entry_id = i, role = r, entry_text = normalizeTranscriptText t\<rparr>]"
    by (simp add: appendEntry_def Let_def)
  have keep: "nonblank_log es \<longrightarrow> nonblank_log (appendEntry i r t es)"
    by (simp add: appendEntry_nonblank)
  have ops: "nonblank_log (entries s) \<longrightarrow>
      nonblank_log (entries (flushUserPartial i s)) \<and>
      nonblank_log (entries (onServerMessage now ids m s)) \<and>
      nonblank_log (entries (onSendText now i s)) \<and>
      nonblank_log (entries (requestVisionFeedback l c mode now i s)) \<and>
      nonblank_log (entries (onStopSession i s)) \<and>
      nonblank_log (entries (onMicStreamError i e s)) \<and>
      nonblank_log (entries (onCameraStreamError i e s))"
    by (simp add: flushUserPartial_nonblank onServerMessage_nonblank handlers_nonblank)
  have empty: "nonblank_log []"
    by (simp add: nonblank_log_def)
  then have built: "nonblank_log (append_all reqs [])"
    by (rule append_all_nonblank)
  from drop shape keep ops empty built show ?thesis
    by (intro conjI)
qed

text \<open>
  The theorem on \<open>recent_log\<close>: a blank event entry is dropped, and the log stays free of
  blank texts when a text with stray spaces is committed.
\<close>

theorem transcript_log_nonblank_witness:
  "nonblank_log recent_log \<and>
   appendEntry (str ''n'') Event (str ''  '') recent_log = recent_log \<and>
   appendEntry (str ''n'') User (str '' see  the mug '') recent_log =
     recent_log @ [\<lparr>entry_id = str ''n'', role = User, entry_text = str ''see the mug''\<rparr>] \<and>
   nonblank_log (appendEntry (str ''n'') User (str '' see  the mug '') recent_log)"
proof -
  have ok: "nonblank_log recent_log"
    by (simp add: nonblank_log_def recent_log_def normalize_samples str_samples_distinct)
  have app: "appendEntry (str ''n'') User (str '' see  the mug '') recent_log =
     recent_log @ [\<lparr>entry_id = str ''n'', role = User, entry_text = str ''see the mug''\<rparr>]"
    by (simp add: appendEntry_def recent_log_def normalize_samples Let_def) (simp add: str_def)
  from transcript_log_nonblank[of "str ''  ''" "str ''n''" Event recent_log]
    transcript_log_nonblank[of "str '' see  the mug ''" "str ''n''" User recent_log]
    ok app
  show ?thesis
    by (simp add: normalize_samples)
qed

section \<open>Auto-observe: the guards\<close>

lemma stamp_blocks_auto:
  assumes "now - lastVisionFeedbackRequestAtRef s < autoFeedbackCooldownMs"
  shows "requestVisionFeedback l c Auto now i s = s"
    and "auto_observe_interval now i s = s"
  using assms
  by (auto simp: requestVisionFeedback_def auto_observe_interval_def split: option.splits)

lemma stale_frame_blocks_auto:
  assumes "now - lastFrameCaptureAtRef s > autoFeedbackFrameFreshnessMs"
  shows "requestVisionFeedback l c Auto now i s = s"
    and "auto_observe_interval now i s = s"
  using assms
  by (auto simp: requestVisionFeedback_def auto_observe_interval_def split: option.splits)

lemma stamp_current_kept:
  "stamp_current s \<Longrightarrow> stamp_current (requestVisionFeedback l c Auto now i s)"
  "stamp_current s \<Longrightarrow> lastVisionFeedbackRequestAtRef s \<le> now \<Longrightarrow>
   stamp_current (requestVisionFeedback l c Manual now i s)"
  "stamp_current s \<Longrightarrow> stamp_current (auto_observe_interval now i s)"
  "stamp_current s \<Longrightarrow> stamp_current (auto_observe_effect s)"
  "stamp_current s \<Longrightarrow> stamp_current (onCameraFrame now d m s)"
  "stamp_current s \<Longrightarrow> stamp_current (onServerMessage now ids (LiveWaitingInput w) s)"
  by (auto simp: stamp_current_def requestVisionFeedback_def auto_observe_interval_def
      auto_observe_effect_def onCameraFrame_def sendTextTurn_def append_entry_def Let_def
      split: option.splits)

text \<open>
  C8, as the code has it.
  \<^item> The flag \<open>waitingForInput\<close> holds the value of the last \<open>live.waiting-input\<close> message.
    A run of the auto-observe effect arms a timer exactly when the feature, the connection,
    the camera and this flag are all on, and clears the timer otherwise. So once the effect
    has run with the flag false, a firing changes nothing and sends nothing, whatever the
    time; as does any firing when no timer is armed.
  \<^item> An auto request at a time less than the cooldown after the stamp
    \<open>lastVisionFeedbackRequestAtRef\<close> changes nothing and sends nothing, and neither does
    the firing of the timer that would make it.
  \<^item> The same holds when the last frame was captured longer ago than the freshness
    window.
  \<^item> While the stamp is current, that is not older than the last auto-mode feedback
    sent, an auto request less than the cooldown after the last auto-mode feedback sends
    nothing. Feedback requests keep the stamp current (a manual one when the clock has not
    gone back behind the stamp).
\<close>

theorem auto_observe_guards:
  "waitingForInput (onServerMessage t ids (LiveWaitingInput w) s0) = w \<and>
   autoObserveTimer (auto_observe_effect s) =
     (if visionAutoFeedbackEnabled s \<and> liveInputEnabled s \<and> cameraEnabled s \<and>
         waitingForInput s
      then Some (True, True) else None) \<and>
   (\<not> waitingForInput s \<longrightarrow>
      auto_observe_interval now i (auto_observe_effect s) = auto_observe_effect s) \<and>
   (autoObserveTimer s = None \<longrightarrow> auto_observe_interval now i s = s) \<and>
   (now - lastVisionFeedbackRequestAtRef s < autoFeedbackCooldownMs \<longrightarrow>
      requestVisionFeedback l c Auto now i s = s \<and> auto_observe_interval now i s = s) \<and>
   (now - lastFrameCaptureAtRef s > autoFeedbackFrameFreshnessMs \<longrightarrow>
      requestVisionFeedback l c Auto now i s = s \<and> auto_observe_interval now i s = s) \<and>
   (stamp_current s \<and> autoFeedbackSent s \<noteq> [] \<and>
    now - last (autoFeedbackSent s) < autoFeedbackCooldownMs \<longrightarrow>
      requestVisionFeedback l c Auto now i s = s \<and> auto_observe_interval now i s = s) \<and>
   (stamp_current s \<longrightarrow> stamp_current (requestVisionFeedback l c Auto now i s)) \<and>
   (stamp_current s \<and> lastVisionFeedbackRequestAtRef s \<le> now \<longrightarrow>
      stamp_current (requestVisionFeedback l c Manual now i s))"
proof -
  have signal: "waitingForInput (onServerMessage t ids (LiveWaitingInput w) s0) = w"
    by simp
  have effect: "autoObserveTimer (auto_observe_effect s) =
     (if visionAutoFeedbackEnabled s \<and> liveInputEnabled s \<and> cameraEnabled s \<and>
         waitingForInput s
      then Some (True, True) else None)"
    by (simp add: auto_observe_effect_def)
  have unarmed: "autoObserveTimer s = None \<longrightarrow> auto_observe_interval now i s = s" for s
    by (simp add: auto_observe_interval_def)
  have cleared: "\<not> waitingForInput s \<longrightarrow>
      auto_observe_interval now i (auto_observe_effect s) = auto_observe_effect s"
    by (simp add: auto_observe_interval_def auto_observe_effect_def)
  have cooldown: "now - lastVisionFeedbackRequestAtRef s < autoFeedbackCooldownMs \<longrightarrow>
      requestVisionFeedback l c Auto now i s = s \<and> auto_observe_interval now i s = s"
    by (simp add: stamp_blocks_auto)
  have fresh: "now - lastFrameCaptureAtRef s > autoFeedbackFrameFreshnessMs \<longrightarrow>
      requestVisionFeedback l c Auto now i s = s \<and> auto_observe_interval now i s = s"
    by (simp add: stale_frame_blocks_auto)
  have since_auto: "stamp_current s \<and> autoFeedbackSent s \<noteq> [] \<and>
    now - last (autoFeedbackSent s) < autoFeedbackCooldownMs \<longrightarrow>
      requestVisionFeedback l c Auto now i s = s \<and> auto_observe_interval now i s = s"
  proof
    assume a: "stamp_current s \<and> autoFeedbackSent s \<noteq> [] \<and>
      now - last (autoFeedbackSent s) < autoFeedbackCooldownMs"
    then have "last (autoFeedbackSent s) \<le> lastVisionFeedbackRequestAtRef s"
      by (auto simp: stamp_current_def)
    with a have "now - lastVisionFeedbackRequestAtRef s < autoFeedbackCooldownMs"
      by arith
    then show "requestVisionFeedback l c Auto now i s = s \<and> auto_observe_interval now i s = s"
      by (simp add: stamp_blocks_auto)
  qed
  have kept: "stamp_current s \<longrightarrow> stamp_current (requestVisionFeedback l c Auto now i s)"
    "stamp_current s \<and> lastVisionFeedbackRequestAtRef s \<le> now \<longrightarrow>
      stamp_current (requestVisionFeedback l c Manual now i s)"
    by (simp_all add: stamp_current_kept)
  from signal effect cleared unarmed[of s] cooldown fresh since_auto kept show ?thesis
    by (intro conjI)
qed

lemma armed_observing_fields:
  "autoObserveTimer armed_observing = Some (True, True)"
  "lastUserActivityAtRef armed_observing = 100000"
  "lastVisionFeedbackRequestAtRef armed_observing = 100000"
  "lastFrameCaptureAtRef armed_observing = 139000"
  "textTurns armed_observing = []"
  "autoFeedbackSent armed_observing = []"
  "waitingForInput armed_observing"
  "visionAutoFeedbackEnabled armed_observing"
  "userPartialRef armed_observing = []"
  by (simp_all add: armed_observing_def auto_observe_effect_def observing_def initial_app_def)

text \<open>
  With all its conditions met, the timer does send the auto-observe prompt and stamps the
  request: the guards are what holds it back in the cases below.
\<close>

lemma auto_observe_fires:
  "textTurns (auto_observe_interval 140000 i armed_observing) = [(autoVisionPrompt, True)]"
  "lastVisionFeedbackRequestAtRef (auto_observe_interval 140000 i armed_observing) = 140000"
  "autoFeedbackSent (auto_observe_interval 140000 i armed_observing) = [140000]"
  "autoObserveTimer (auto_observe_interval 140000 i armed_observing) = Some (True, True)"
  "lastUserActivityAtRef (auto_observe_interval 140000 i armed_observing) = 100000"
  "lastFrameCaptureAtRef (auto_observe_interval 140000 i armed_observing) = 139000"
  "visionAutoFeedbackEnabled (auto_observe_interval 140000 i armed_observing)"
  "userPartialRef (auto_observe_interval 140000 i armed_observing) = []"
  by (simp_all add: auto_observe_interval_def requestVisionFeedback_def armed_observing_fields
      sendTextTurn_def userSilenceThresholdMs_def autoFeedbackCooldownMs_def
      autoFeedbackFrameFreshnessMs_def Let_def)

text \<open>
  The theorem at time 140000 on \<open>observing\<close>: with the session not waiting for input the
  effect arms no timer and a firing does nothing; on the armed component a request stamped
  ten seconds ago holds the firing back, and so does a frame captured nine seconds ago; and
  after the prompt has been sent at 140000, the firing at 151000 sends nothing.
\<close>

theorem auto_observe_guards_witness:
  "auto_observe_interval 140000 (str ''n'')
     (auto_observe_effect (observing\<lparr>waitingForInput := False\<rparr>)) =
     auto_observe_effect (observing\<lparr>waitingForInput := False\<rparr>) \<and>
   auto_observe_interval 140000 (str ''n'')
     (armed_observing\<lparr>lastVisionFeedbackRequestAtRef := 130000\<rparr>) =
     armed_observing\<lparr>lastVisionFeedbackRequestAtRef := 130000\<rparr> \<and>
   auto_observe_interval 140000 (str ''n'') (armed_observing\<lparr>lastFrameCaptureAtRef := 131000\<rparr>) =
     armed_observing\<lparr>lastFrameCaptureAtRef := 131000\<rparr> \<and>
   auto_observe_interval 151000 (str ''n'')
     (auto_observe_interval 140000 (str ''n'') armed_observing) =
     auto_observe_interval 140000 (str ''n'') armed_observing"
proof -
  have "auto_observe_interval 140000 (str ''n'')
          (auto_observe_effect (observing\<lparr>waitingForInput := False\<rparr>)) =
        auto_observe_effect (observing\<lparr>waitingForInput := False\<rparr>)"
    using auto_observe_guards[of _ _ _ _ "observing\<lparr>waitingForInput := False\<rparr>" 140000 "str ''n''"]
    by simp
  moreover have
    "auto_observe_interval 140000 (str ''n'')
       (armed_observing\<lparr>lastVisionFeedbackRequestAtRef := 130000\<rparr>) =
     armed_observing\<lparr>lastVisionFeedbackRequestAtRef := 130000\<rparr>"
    using auto_observe_guards
            [of _ _ _ _ "armed_observing\<lparr>lastVisionFeedbackRequestAtRef := 130000\<rparr>" 140000 "str ''n''"]
    by (simp add: autoFeedbackCooldownMs_def)
  moreover have
    "auto_observe_interval 140000 (str ''n'') (armed_observing\<lparr>lastFrameCaptureAtRef := 131000\<rparr>) =
     armed_observing\<lparr>lastFrameCaptureAtRef := 131000\<rparr>"
    using auto_observe_guards
            [of _ _ _ _ "armed_observing\<lparr>lastFrameCaptureAtRef := 131000\<rparr>" 140000 "str ''n''"]
    by (simp add: autoFeedbackFrameFreshnessMs_def)
  moreover have
    "auto_observe_interval 151000 (str ''n'')
       (auto_observe_interval 140000 (str ''n'') armed_observing) =
     auto_observe_interval 140000 (str ''n'') armed_observing"
    using auto_observe_guards
            [of _ _ _ _ "auto_observe_interval 140000 (str ''n'') armed_observing" 151000 "str ''n''"]
    by (simp add: auto_observe_fires stamp_current_def autoFeedbackCooldownMs_def)
  ultimately show ?thesis
    by blast
qed

text \<open>
  The claim as it was stated fails in two places.
  \<^item> After a \<open>live.waiting-input\<close> message that says false, the timer armed before it is
    still there until the effect runs again, and its callback tests the silence only: fired
    at 140000, it sends the auto prompt although the last signal was false.
  \<^item> Stopping the session clears the stamp. When a new session has connected and the
    camera is on again, the firing at 151000 sends a second auto prompt, eleven seconds
    after the first, which is less than the cooldown of eighteen.
\<close>

theorem auto_observe_guards_counterexample:
  "waitingForInput signalled_false = False \<and>
   textTurns signalled_false = [] \<and>
   textTurns (auto_observe_interval 140000 (str ''n'') signalled_false) =
     [(autoVisionPrompt, True)] \<and>
   autoFeedbackSent restarted = [140000] \<and>
   textTurns restarted = [(autoVisionPrompt, True)] \<and>
   textTurns (auto_observe_interval 151000 (str ''n'') restarted) =
     [(autoVisionPrompt, True), (autoVisionPrompt, True)] \<and>
   autoFeedbackSent (auto_observe_interval 151000 (str ''n'') restarted) = [140000, 151000]"
proof -
  have stale:
    "waitingForInput signalled_false = False"
    "textTurns signalled_false = []"
    "textTurns (auto_observe_interval 140000 (str ''n'') signalled_false) =
       [(autoVisionPrompt, True)]"
    by (simp_all add: signalled_false_def socket_onmessage_def auto_observe_interval_def
        requestVisionFeedback_def armed_observing_fields sendTextTurn_def
        userSilenceThresholdMs_def autoFeedbackCooldownMs_def
        autoFeedbackFrameFreshnessMs_def Let_def)
  have fields:
    "autoObserveTimer restarted = Some (True, True)"
    "lastUserActivityAtRef restarted = 141000"
    "lastVisionFeedbackRequestAtRef restarted = 0"
    "lastFrameCaptureAtRef restarted = 150000"
    "textTurns restarted = [(autoVisionPrompt, True)]"
    "autoFeedbackSent restarted = [140000]"
    by (simp_all add: restarted_def auto_observe_effect_def onCameraFrame_def
        socket_onmessage_def setCameraEnabled_def append_entry_def onStopSession_def
        flushUserPartial_def auto_observe_fires normalizeTranscriptText_def trim_def
        Let_def)
  have again:
    "textTurns (auto_observe_interval 151000 (str ''n'') restarted) =
       [(autoVisionPrompt, True), (autoVisionPrompt, True)]"
    "autoFeedbackSent (auto_observe_interval 151000 (str ''n'') restarted) = [140000, 151000]"
    by (simp_all add: auto_observe_interval_def requestVisionFeedback_def fields
        sendTextTurn_def userSilenceThresholdMs_def autoFeedbackCooldownMs_def
        autoFeedbackFrameFreshnessMs_def Let_def)
  from stale fields(5,6) again show ?thesis
    by (intro conjI)
qed

text \<open>
  The stamp \<open>lastVisionFeedbackRequestAtRef\<close> that the cooldown is measured from is written
  by every feedback request that passes the guards, manual or auto, and is cleared when a
  session connects, closes or is stopped.
\<close>

lemma feedback_stamp_writers:
  "lastVisionFeedbackRequestAtRef (onServerMessage t ids (SessionConnected sid) s) = 0"
  "lastVisionFeedbackRequestAtRef (onServerMessage t ids (SessionClosed reason) s) = 0"
  "lastVisionFeedbackRequestAtRef (onStopSession i s) = 0"
  "liveInputEnabled s \<Longrightarrow> cameraEnabled s \<Longrightarrow>
   lastVisionFeedbackRequestAtRef (onRequestVisionFeedback now i s) = now"
  by (simp_all add: append_entry_def onStopSession_def requestVisionFeedback_def
      onRequestVisionFeedback_def sendTextTurn_def Let_def)

end
